theory Spec2Isabelle
  imports Main "HOL-Library.Word" "HOL-Library.Sublist"
begin

section \<open>Machine types\<close>

text \<open>
  The C++ sources use the fixed-width unsigned types \<^verbatim>\<open>BYTE\<close>, \<^verbatim>\<open>WORD\<close>,
  \<^verbatim>\<open>DWORD\<close> and \<^verbatim>\<open>QWORD\<close>. They are words here: addition, subtraction and
  multiplication wrap, \<open>div\<close> is the unsigned division and \<open><\<close> the unsigned order.
\<close>

type_synonym BYTE = "8 word"
type_synonym WORD = "16 word"
type_synonym DWORD = "32 word"
type_synonym QWORD = "64 word"

section \<open>The packetization bridge: data\<close>

text \<open>
  \<^verbatim>\<open>MediaFrame\<close>, \<^verbatim>\<open>RtpPacketization\<close> and \<^verbatim>\<open>RTPPacket\<close> are declared in headers
  that are not part of the sources. Each getter that \<^verbatim>\<open>onMediaFrame\<close> calls is a field of
  the record, holding what the getter returns; nothing is assumed about how the
  fields relate to one another. The frame type has the two cases the \<^verbatim>\<open>switch\<close> names
  and one more for every type that falls to \<^verbatim>\<open>default\<close>.
\<close>

datatype MediaType = Audio | Video | OtherMedia

record RtpPacketization =
  GetPos :: DWORD
  GetSize :: DWORD
  GetPrefixData :: "BYTE list"
  GetPrefixLen :: DWORD
  GetTotalLength :: DWORD

record MediaFrame =
  GetType :: MediaType
  GetCodec :: DWORD
  GetData :: "BYTE list"
  GetLength :: DWORD
  GetTimeStamp :: DWORD
  GetRtpPacketizationInfo :: "RtpPacketization list"

text \<open>
  An RTP packet as the bridge fills it. \<open>Timestamp\<close> holds the value handed to
  \<^verbatim>\<open>SetTimestamp\<close>, the 64-bit product \<^verbatim>\<open>lastTimestamp*rate\<close>; \<open>ExtSeqNum\<close> the
  value handed to \<^verbatim>\<open>SetExtSeqNum\<close>.
\<close>

record RTPPacket =
  PacketType :: MediaType
  PacketCodec :: DWORD
  SSRC :: DWORD
  ExtSeqNum :: DWORD
  Payload :: "BYTE list"
  Timestamp :: QWORD
  Mark :: bool
  LayerIds :: "(BYTE \<times> BYTE) option"

text \<open>
  The fields of \<^verbatim>\<open>MediaFrameListenerBridge\<close>, which \<^verbatim>\<open>onMediaFrame\<close>, \<^verbatim>\<open>Reset\<close>
  and \<^verbatim>\<open>Update\<close> read and write. The header that declares them is outside the
  sources. The SSRC and the extended sequence number are 32-bit, as the spec says; the
  media timestamps (\<open>firstTimestamp\<close> and the frame's) are taken as \<^verbatim>\<open>DWORD\<close>, the
  RTP-domain timestamps and the wall-clock time as \<^verbatim>\<open>QWORD\<close>, the counters as
  \<^verbatim>\<open>DWORD\<close>. The bitrate accumulator is an object of a class outside the sources:
  its state is the type parameter \<open>'a\<close>. Listeners are identified by numbers (their
  addresses).
\<close>

record 'a MediaFrameListenerBridge =
  ssrc :: DWORD
  extSeqNum :: DWORD
  listeners :: "nat set"
  reset :: bool
  firstTimestamp :: DWORD
  baseTimestamp :: QWORD
  lastTimestamp :: QWORD
  lastTime :: QWORD
  numFrames :: DWORD
  numPackets :: DWORD
  totalBytes :: DWORD
  bitrate :: DWORD
  acumulator :: 'a

text \<open>
  What \<^verbatim>\<open>onMediaFrame\<close> calls outside the sources, taken as parameters: the payload
  capacity of a packet (\<^verbatim>\<open>RTPPacket::GetMaxMediaLength\<close>), the two update operations and
  the reading of the accumulator, and the layer parser
  \<^verbatim>\<open>VideoLayerSelector::GetLayerIds\<close>.
\<close>

record 'a Collaborators =
  GetMaxMediaLength :: DWORD
  acumulator_Update :: "QWORD \<Rightarrow> DWORD \<Rightarrow> 'a \<Rightarrow> 'a"
  acumulator_UpdateNow :: "QWORD \<Rightarrow> 'a \<Rightarrow> 'a"
  acumulator_GetInstant :: "'a \<Rightarrow> DWORD"
  GetLayerIds :: "DWORD \<Rightarrow> BYTE list \<Rightarrow> BYTE \<times> BYTE"

section \<open>The packetization bridge: operations\<close>

text \<open>
  Modelled from the spec: \<^verbatim>\<open>MediaFrame::HasRtpPacketizationInfo\<close> is declared in a
  header outside the sources. The spec gives a frame a list of packetization
  descriptors and calls a frame without descriptors one with no packetization info.
\<close>

definition HasRtpPacketizationInfo :: "MediaFrame \<Rightarrow> bool" where
  "HasRtpPacketizationInfo frame = (GetRtpPacketizationInfo frame \<noteq> [])"

text \<open>
  Modelled from the spec: \<^verbatim>\<open>getTimeDiff\<close> is declared in a header outside the sources.
  The spec gives the elapsed time as \<^verbatim>\<open>now_ms - last_time_ms\<close>; the subtraction is the
  unsigned 64-bit one of the operand type.
\<close>

definition getTimeDiff :: "QWORD \<Rightarrow> QWORD \<Rightarrow> QWORD" where
  "getTimeDiff now t = now - t"

definition AddListener :: "nat \<Rightarrow> 'a MediaFrameListenerBridge \<Rightarrow> 'a MediaFrameListenerBridge" where
  "AddListener listener b = b\<lparr>listeners := insert listener (listeners b)\<rparr>"

definition RemoveListener :: "nat \<Rightarrow> 'a MediaFrameListenerBridge \<Rightarrow> 'a MediaFrameListenerBridge" where
  "RemoveListener listener b = b\<lparr>listeners := listeners b - {listener}\<rparr>"

text \<open>
  The \<^verbatim>\<open>switch\<close> on the frame type: codec, data, size and rate of an audio or a video
  frame, \<open>None\<close> where the source returns through \<^verbatim>\<open>default\<close>.
\<close>

definition frame_kind :: "MediaFrame \<Rightarrow> (DWORD \<times> BYTE list \<times> DWORD \<times> WORD) option" where
  "frame_kind frame =
     (case GetType frame of
        Audio \<Rightarrow> Some (GetCodec frame, GetData frame, GetLength frame, 48)
      | Video \<Rightarrow> Some (GetCodec frame, GetData frame, GetLength frame, 90)
      | OtherMedia \<Rightarrow> None)"

text \<open>
  Whether a descriptor passes the length check
  \<^verbatim>\<open>rtp->GetTotalLength()>packet->GetMaxMediaLength()\<close>.
\<close>

definition fits :: "'a Collaborators \<Rightarrow> RtpPacketization \<Rightarrow> bool" where
  "fits c rtp = (\<not> GetTotalLength rtp > GetMaxMediaLength c)"

text \<open>
  The packet built for descriptor \<open>rtp\<close>, the \<open>i\<close>-th of the frame, once the length check
  has passed: SSRC, sequence number, payload (the slice of the frame data behind the
  descriptor's prefix), timestamp, mark bit, and for video the layer ids.
\<close>

definition make_packet ::
  "'a Collaborators \<Rightarrow> MediaFrame \<Rightarrow> DWORD \<Rightarrow> BYTE list \<Rightarrow> WORD \<Rightarrow> nat \<Rightarrow> RtpPacketization \<Rightarrow>
   DWORD \<Rightarrow> DWORD \<Rightarrow> QWORD \<Rightarrow> RTPPacket" where
  "make_packet c frame codec frameData rate i rtp src seq ts =
     (let payload = take (unat (GetPrefixLen rtp)) (GetPrefixData rtp)
                      @ take (unat (GetSize rtp)) (drop (unat (GetPos rtp)) frameData)
      in \<lparr>PacketType = GetType frame, PacketCodec = codec, SSRC = src, ExtSeqNum = seq,
          Payload = payload, Timestamp = ts * ucast rate,
          Mark = (i + 1 = length (GetRtpPacketizationInfo frame)),
          LayerIds = (if GetType frame = Video then Some (GetLayerIds c codec payload) else None)\<rparr>)"

text \<open>
  The loop \<^verbatim>\<open>for (size_t i=0;i<info.size();i++)\<close> that builds and emits the packets:
  \<open>i\<close> is the index and the list holds the descriptors from index \<open>i\<close> on. An oversized
  descriptor takes the \<^verbatim>\<open>continue\<close>, before any field of the bridge is written. The
  result is the bridge after the loop and the packets handed to the listeners, in
  order. (The locals \<^verbatim>\<open>frameLength\<close> and \<^verbatim>\<open>current\<close> are written and never read.)
\<close>

fun packetize ::
  "'a Collaborators \<Rightarrow> MediaFrame \<Rightarrow> DWORD \<Rightarrow> BYTE list \<Rightarrow> WORD \<Rightarrow> nat \<Rightarrow> RtpPacketization list \<Rightarrow>
   'a MediaFrameListenerBridge \<Rightarrow> 'a MediaFrameListenerBridge \<times> RTPPacket list" where
  "packetize c frame codec frameData rate i [] b = (b, [])"
| "packetize c frame codec frameData rate i (rtp # rest) b =
     (if GetTotalLength rtp > GetMaxMediaLength c
      then packetize c frame codec frameData rate (Suc i) rest b
      else
        let seq = extSeqNum b;
            ts = baseTimestamp b + ucast (GetTimeStamp frame - firstTimestamp b);
            pkt = make_packet c frame codec frameData rate i rtp (ssrc b) seq ts;
            b' = b\<lparr>extSeqNum := seq + 1, lastTimestamp := ts, numPackets := numPackets b + 1\<rparr>;
            r = packetize c frame codec frameData rate (Suc i) rest b'
        in (fst r, pkt # snd r))"

text \<open>
  \<^verbatim>\<open>onMediaFrame\<close>, with the reading \<open>now\<close> of the millisecond clock as an argument. The
  steps are the source's: the check for packetization info, the reset latch, the
  switch on the type, the statistics, the start of a segment, the packet loop.
\<close>

definition onMediaFrame ::
  "'a Collaborators \<Rightarrow> QWORD \<Rightarrow> 'a MediaFrameListenerBridge \<Rightarrow> MediaFrame \<Rightarrow>
   'a MediaFrameListenerBridge \<times> RTPPacket list" where
  "onMediaFrame c now b frame =
     (if \<not> HasRtpPacketizationInfo frame then (b, [])
      else
        let b1 = (if reset b
                  then b\<lparr>firstTimestamp := 0, baseTimestamp := lastTimestamp b, reset := False\<rparr>
                  else b)
        in case frame_kind frame of
             None \<Rightarrow> (b1, [])
           | Some (codec, frameData, frameSize, rate) \<Rightarrow>
               let b2 = b1\<lparr>numFrames := numFrames b1 + 1, totalBytes := totalBytes b1 + frameSize\<rparr>;
                   acc = acumulator_Update c now frameSize (acumulator b2);
                   b3 = b2\<lparr>acumulator := acc, bitrate := acumulator_GetInstant c acc * 8\<rparr>;
                   b4 = (if firstTimestamp b3 = 0
                         then
                           let b' = (if lastTime b3 \<noteq> 0
                                     then b3\<lparr>baseTimestamp :=
                                            lastTimestamp b3
                                            + getTimeDiff now (lastTime b3) * ucast rate div 1000 + 1\<rparr>
                                     else b3)
                           in b'\<lparr>firstTimestamp := GetTimeStamp frame\<rparr>
                         else b3)
               in packetize c frame codec frameData rate 0 (GetRtpPacketizationInfo frame) b4)"

definition Reset :: "'a MediaFrameListenerBridge \<Rightarrow> 'a MediaFrameListenerBridge" where
  "Reset b = b\<lparr>reset := True\<rparr>"

definition Update :: "'a Collaborators \<Rightarrow> QWORD \<Rightarrow> 'a MediaFrameListenerBridge \<Rightarrow> 'a MediaFrameListenerBridge" where
  "Update c now b =
     (let acc = acumulator_UpdateNow c now (acumulator b)
      in b\<lparr>acumulator := acc, bitrate := acumulator_GetInstant c acc * 8\<rparr>)"

text \<open>
  The packets one listener receives from a call: every packet of the call when it is
  in the listener set, none otherwise.
\<close>

definition onRTP_received :: "nat \<Rightarrow> 'a MediaFrameListenerBridge \<Rightarrow> RTPPacket list \<Rightarrow> RTPPacket list" where
  "onRTP_received listener b pkts = (if listener \<in> listeners b then pkts else [])"

text \<open>
  A history of calls on one bridge, and the bridge and the packets it has emitted, in
  emission order, after the history.
\<close>

datatype BridgeCall =
  Frame QWORD MediaFrame | ResetCall | UpdateCall QWORD | AddCall nat | RemoveCall nat

fun feed ::
  "'a Collaborators \<Rightarrow> 'a MediaFrameListenerBridge \<Rightarrow> BridgeCall list \<Rightarrow>
   'a MediaFrameListenerBridge \<times> RTPPacket list" where
  "feed c b [] = (b, [])"
| "feed c b (Frame now frame # calls) =
     (let r = onMediaFrame c now b frame; r' = feed c (fst r) calls
      in (fst r', snd r @ snd r'))"
| "feed c b (ResetCall # calls) = feed c (Reset b) calls"
| "feed c b (UpdateCall now # calls) = feed c (Update c now b) calls"
| "feed c b (AddCall listener # calls) = feed c (AddListener listener b) calls"
| "feed c b (RemoveCall listener # calls) = feed c (RemoveListener listener b) calls"

text \<open>
  Modelled from the spec: the constructor and the field initialisers of the bridge are
  in a header outside the sources. The spec's fresh bridge has the SSRC its owner
  gives it, sequence number 0, no segment (\<open>first_timestamp = 0\<close>), no earlier packet
  (\<open>last_time_ms = 0\<close>), base 0 and no reset armed.
\<close>

definition fresh_bridge :: "DWORD \<Rightarrow> 'a \<Rightarrow> 'a MediaFrameListenerBridge" where
  "fresh_bridge src acc =
     \<lparr>ssrc = src, extSeqNum = 0, listeners = {}, reset = False, firstTimestamp = 0,
      baseTimestamp = 0, lastTimestamp = 0, lastTime = 0, numFrames = 0, numPackets = 0,
      totalBytes = 0, bitrate = 0, acumulator = acc\<rparr>"

section \<open>The event loop: data\<close>

text \<open>
  The backpressure state, an entry of the send queue, the lines the loop logs, and
  the state of the \<^verbatim>\<open>std::thread\<close> member with the place its worker is at: not
  joinable (never started, or joined); a worker about to evaluate the condition of the
  main loop of \<^verbatim>\<open>Run\<close>; a worker blocked in \<^verbatim>\<open>poll\<close> without timeout; a worker whose
  \<^verbatim>\<open>Run\<close> has returned and that has not been joined.
\<close>

datatype State = Normal | Lagging | Overflown

record SendBuffer =
  ipAddr :: DWORD
  port :: WORD
  packet :: "BYTE list"

datatype LogLine =
  SendingQueueOverflown nat | SendingQueueLaggingBehind nat | SendingQueueBackToNormal nat
  | PoolErrorEvent

datatype Thread = NotJoinable | AtLoopTest | InPoll | Returned

datatype Caller = LoopThread | OtherThread

text \<open>
  A task is a promise and a function, both identified by numbers. What the callbacks
  do is recorded as a list of effects: the call of a task's function with the time it
  was given, \<^verbatim>\<open>set_value\<close> on a promise, and the call of the listener's \<^verbatim>\<open>OnRead\<close>.
  The task events of a list of effects are its calls and resolutions, without the
  times.
\<close>

record Task =
  promise :: nat
  func :: nat

datatype Effect = Called nat int | SetValue nat | OnRead



datatype errno = EAGAIN | EWOULDBLOCK | EOTHER

datatype sendto_ret = Sent | Failed errno

text \<open>
  What one return of \<^verbatim>\<open>poll\<close> finds: \<^verbatim>\<open>POLLHUP\<close> or \<^verbatim>\<open>POLLERR\<close> on one of the two
  descriptors, input on the socket, and whether the socket can take a datagram
  (\<^verbatim>\<open>POLLOUT\<close> is reported only when it was asked for).
\<close>

record PollResult =
  POLLHUP_or_POLLERR :: bool
  socket_POLLIN :: bool
  socket_writable :: bool

text \<open>
  The members of \<^verbatim>\<open>EventLoop\<close> that \<^verbatim>\<open>Start\<close>, \<^verbatim>\<open>Stop\<close>, \<^verbatim>\<open>Send\<close>, \<^verbatim>\<open>Async\<close>,
  \<^verbatim>\<open>Signal\<close> and \<^verbatim>\<open>Run\<close> use, together with the two locals of \<^verbatim>\<open>Run\<close> that live
  across iterations (\<open>pending\<close> and \<open>item\<close>). The queues are lists, oldest entry first,
  and \<^verbatim>\<open>size_approx\<close> is their length. \<open>pipe_pending\<close> counts the writes to the
  signalling descriptor that have not been read. \<open>events_POLLOUT\<close> tells whether
  \<^verbatim>\<open>ufds[0].events\<close> asks for \<^verbatim>\<open>POLLOUT\<close>. \<open>attempted\<close> holds the entries handed to
  \<^verbatim>\<open>sendto\<close>, one per call, \<open>datagrams\<close> those it accepted, and \<open>sendto_calls\<close> counts
  the calls. \<open>clock_reads\<close> counts the readings of the system clock.

  The timer table is empty throughout (no timer is created on the loop), so that the
  timer phase of an iteration does nothing and \<^verbatim>\<open>poll\<close> is called with timeout 0 when
  tasks are queued and without timeout otherwise. \<^verbatim>\<open>Run\<close> has no duration limit. What
  the callbacks (task functions, \<^verbatim>\<open>OnRead\<close>) do beyond being called is outside the
  state.
\<close>

record EventLoop =
  running :: bool
  thread :: Thread
  state :: State
  sending :: "SendBuffer list"
  tasks :: "Task list"
  signaled :: bool
  pipe_pending :: nat
  cached_now :: int
  clock_reads :: nat
  logged :: "LogLine list"
  effects :: "Effect list"
  pending :: bool
  item :: SendBuffer
  datagrams :: "SendBuffer list"
  sendto_calls :: nat
  attempted :: "SendBuffer list"
  events_POLLOUT :: bool
  has_listener :: bool

section \<open>The event loop: operations\<close>

definition MaxSendingQueueSize :: nat where
  "MaxSendingQueueSize = 16 * 1024"

text \<open>
  \<^verbatim>\<open>std::this_thread::get_id()==thread.get_id()\<close>: the caller is the worker of this
  loop.
\<close>

definition on_loop_thread :: "Caller \<Rightarrow> EventLoop \<Rightarrow> bool" where
  "on_loop_thread caller l =
     (caller = LoopThread \<and> (thread l = AtLoopTest \<or> thread l = InPoll))"

text \<open>\<^verbatim>\<open>Now\<close> reads the system clock, given as the function \<open>clk\<close> of the reading's number,
  and caches the value.\<close>

definition Now :: "(nat \<Rightarrow> int) \<Rightarrow> EventLoop \<Rightarrow> EventLoop" where
  "Now clk l = l\<lparr>cached_now := clk (clock_reads l), clock_reads := Suc (clock_reads l)\<rparr>"

definition Signal :: "Caller \<Rightarrow> EventLoop \<Rightarrow> EventLoop" where
  "Signal caller l =
     (if on_loop_thread caller l \<or> signaled l then l
      else l\<lparr>signaled := True, pipe_pending := Suc (pipe_pending l)\<rparr>)"

text \<open>
  \<^verbatim>\<open>Start(int fd)\<close>: refused when the thread object holds a thread; otherwise a new
  signalling descriptor is made (nothing pending on it), \<open>running\<close> is set and the
  worker is started. The worker's way to the first test of the loop condition is part
  of this step: \<^verbatim>\<open>Run\<close> declares \<open>pending\<close> false and reads the clock once. \<open>signaled\<close>
  is not written.
\<close>

definition Start :: "(nat \<Rightarrow> int) \<Rightarrow> EventLoop \<Rightarrow> bool \<times> EventLoop" where
  "Start clk l =
     (if thread l \<noteq> NotJoinable then (False, l)
      else (True, Now clk (l\<lparr>pipe_pending := 0, running := True, thread := AtLoopTest,
                               pending := False\<rparr>)))"

definition Send :: "Caller \<Rightarrow> DWORD \<Rightarrow> WORD \<Rightarrow> BYTE list \<Rightarrow> EventLoop \<Rightarrow> EventLoop" where
  "Send caller ip prt pkt l =
     (let aprox = length (sending l)
      in if aprox > MaxSendingQueueSize
         then (if state l \<noteq> Overflown
               then l\<lparr>state := Overflown, logged := logged l @ [SendingQueueOverflown aprox]\<rparr>
               else l)
         else
           let l1 = (if aprox > MaxSendingQueueSize div 2 \<and> state l = Normal
                     then l\<lparr>state := Lagging, logged := logged l @ [SendingQueueLaggingBehind aprox]\<rparr>
                     else if aprox < MaxSendingQueueSize div 4 \<and> state l \<noteq> Normal
                     then l\<lparr>state := Lagging, logged := logged l @ [SendingQueueBackToNormal aprox]\<rparr>
                     else l);
               send = \<lparr>ipAddr = ip, port = prt, packet = pkt\<rparr>
           in Signal caller (l1\<lparr>sending := sending l1 @ [send]\<rparr>))"

text \<open>
  \<^verbatim>\<open>Async\<close>: from another thread the task is queued and the loop signalled; from the
  loop's own thread the function is called with the cached time and the promise
  resolved at once.
\<close>

definition Async :: "Caller \<Rightarrow> Task \<Rightarrow> EventLoop \<Rightarrow> EventLoop" where
  "Async caller task l =
     (if \<not> on_loop_thread caller l
      then Signal caller (l\<lparr>tasks := tasks l @ [task]\<rparr>)
      else l\<lparr>effects := effects l @ [Called (func task) (cached_now l), SetValue (promise task)]\<rparr>)"

text \<open>\<^verbatim>\<open>pending = sending.try_dequeue(item)\<close>: on an empty queue \<open>item\<close> keeps its value.\<close>

definition try_dequeue :: "EventLoop \<Rightarrow> EventLoop" where
  "try_dequeue l =
     (case sending l of
        [] \<Rightarrow> l\<lparr>pending := False\<rparr>
      | x # q \<Rightarrow> l\<lparr>pending := True, item := x, sending := q\<rparr>)"

text \<open>
  The loop \<^verbatim>\<open>while (pending)\<close> of the write phase. \<open>sendto\<close> gives the outcome of each
  call by its number: accepted, or failed (\<^verbatim>\<open>ret<0\<close>) with an \<^verbatim>\<open>errno\<close>. A failure in
  state Normal leaves the loop through \<^verbatim>\<open>break\<close>, with \<open>pending\<close> set when the errno
  asks for a retry; in every other case the next entry is dequeued over \<open>item\<close>.
\<close>

function send_loop :: "(nat \<Rightarrow> sendto_ret) \<Rightarrow> EventLoop \<Rightarrow> EventLoop" where
  "send_loop sendto l =
     (if \<not> pending l then l
      else
        case sendto (sendto_calls l) of
          Failed e \<Rightarrow>
            if state l = Normal
            then l\<lparr>sendto_calls := Suc (sendto_calls l), attempted := attempted l @ [item l],
                   pending := (e = EAGAIN \<or> e = EWOULDBLOCK)\<rparr>
            else send_loop sendto
                   (try_dequeue (l\<lparr>sendto_calls := Suc (sendto_calls l),
                                    attempted := attempted l @ [item l]\<rparr>))
        | Sent \<Rightarrow>
            send_loop sendto
              (try_dequeue (l\<lparr>sendto_calls := Suc (sendto_calls l),
                               attempted := attempted l @ [item l],
                               datagrams := datagrams l @ [item l]\<rparr>)))"
  by pat_completeness auto
termination
  by (relation "measure (\<lambda>(sendto, l). if pending l then Suc (length (sending l)) else 0)")
     (auto simp: try_dequeue_def split: list.splits)

declare send_loop.simps [simp del]

text \<open>The write phase of an iteration, entered when \<^verbatim>\<open>poll\<close> reports \<^verbatim>\<open>POLLOUT\<close>.\<close>

definition write_phase :: "(nat \<Rightarrow> sendto_ret) \<Rightarrow> EventLoop \<Rightarrow> EventLoop" where
  "write_phase sendto l = send_loop sendto (if \<not> pending l then try_dequeue l else l)"

text \<open>
  The task phase of an iteration: every queued task is called with the iteration's
  time \<open>t\<close> and its promise resolved.
\<close>

function task_phase :: "int \<Rightarrow> EventLoop \<Rightarrow> EventLoop" where
  "task_phase t l =
     (case tasks l of
        [] \<Rightarrow> l
      | task # q \<Rightarrow>
          task_phase t (l\<lparr>tasks := q,
                           effects := effects l @ [Called (func task) t, SetValue (promise task)]\<rparr>))"
  by pat_completeness auto
termination
  by (relation "measure (\<lambda>(t, l). length (tasks l))") auto

declare task_phase.simps [simp del]

text \<open>
  The drain after the main loop, at the end of \<^verbatim>\<open>Run\<close>: the same, with the clock read
  before each task.
\<close>

function exit_drain :: "(nat \<Rightarrow> int) \<Rightarrow> EventLoop \<Rightarrow> EventLoop" where
  "exit_drain clk l =
     (case tasks l of
        [] \<Rightarrow> l
      | task # q \<Rightarrow>
          let l1 = Now clk (l\<lparr>tasks := q\<rparr>)
          in exit_drain clk
               (l1\<lparr>effects := effects l1 @ [Called (func task) (cached_now l1), SetValue (promise task)]\<rparr>))"
  by pat_completeness auto
termination
  by (relation "measure (\<lambda>(clk, l). length (tasks l))") (auto simp: Now_def)

declare exit_drain.simps [simp del]

text \<open>
  The head of an iteration: \<^verbatim>\<open>ufds[0].events\<close> asks for \<^verbatim>\<open>POLLOUT\<close> exactly when the
  send queue is not empty. Whether \<^verbatim>\<open>poll\<close> returns when it has no timeout: the
  signalling descriptor is readable, or the socket has an event that was asked for.
\<close>

definition poll_interest :: "EventLoop \<Rightarrow> EventLoop" where
  "poll_interest l = l\<lparr>events_POLLOUT := (length (sending l) \<noteq> 0)\<rparr>"

definition poll_returns :: "PollResult \<Rightarrow> EventLoop \<Rightarrow> bool" where
  "poll_returns ev l =
     (0 < pipe_pending l \<or> POLLHUP_or_POLLERR ev \<or> socket_POLLIN ev
      \<or> (events_POLLOUT l \<and> socket_writable ev))"

text \<open>
  The body of an iteration from the return of \<^verbatim>\<open>poll\<close>: the clock is read; on
  \<^verbatim>\<open>POLLHUP\<close> or \<^verbatim>\<open>POLLERR\<close> a line is logged and the loop left through \<^verbatim>\<open>break\<close> (the
  first component of the result); otherwise the read phase, the write phase, and the
  rest: the task phase with the time \<open>t\<close> read at the start, the emptying of the
  signalling descriptor when it is readable, and a last reading of the clock.
\<close>

definition after_write :: "(nat \<Rightarrow> int) \<Rightarrow> int \<Rightarrow> EventLoop \<Rightarrow> EventLoop" where
  "after_write clk t l =
     (let l4 = task_phase t l;
          l5 = (if 0 < pipe_pending l4 then l4\<lparr>pipe_pending := 0, signaled := False\<rparr> else l4)
      in Now clk l5)"

definition iteration ::
  "(nat \<Rightarrow> int) \<Rightarrow> PollResult \<Rightarrow> (nat \<Rightarrow> sendto_ret) \<Rightarrow> EventLoop \<Rightarrow> bool \<times> EventLoop" where
  "iteration clk ev sendto l =
     (let l1 = Now clk l
      in if POLLHUP_or_POLLERR ev then (True, l1\<lparr>logged := logged l1 @ [PoolErrorEvent]\<rparr>)
         else
           let l2 = (if socket_POLLIN ev \<and> has_listener l1
                     then l1\<lparr>effects := effects l1 @ [OnRead]\<rparr> else l1);
               l3 = (if events_POLLOUT l2 \<and> socket_writable ev then write_phase sendto l2 else l2)
           in (False, after_write clk (cached_now l1) l3))"

text \<open>The end of \<^verbatim>\<open>Run\<close>: the drain, and the return.\<close>

definition Run_exit :: "(nat \<Rightarrow> int) \<Rightarrow> EventLoop \<Rightarrow> EventLoop" where
  "Run_exit clk l = (exit_drain clk l)\<lparr>thread := Returned\<rparr>"

text \<open>
  One turn of the worker. At the loop test it leaves the loop when \<open>running\<close> is false;
  otherwise it sets the poll interest and calls \<^verbatim>\<open>poll\<close>, which returns at once when
  tasks are queued (timeout 0) or an event is there, and blocks otherwise. Blocked in
  \<^verbatim>\<open>poll\<close>, it goes on when \<^verbatim>\<open>poll\<close> returns. After the body of the iteration it is
  back at the loop test, or has left \<^verbatim>\<open>Run\<close> through the \<^verbatim>\<open>break\<close>.
\<close>

definition after_poll ::
  "(nat \<Rightarrow> int) \<Rightarrow> PollResult \<Rightarrow> (nat \<Rightarrow> sendto_ret) \<Rightarrow> EventLoop \<Rightarrow> EventLoop" where
  "after_poll clk ev sendto l =
     (case iteration clk ev sendto l of
        (True, l') \<Rightarrow> Run_exit clk l'
      | (False, l') \<Rightarrow> l'\<lparr>thread := AtLoopTest\<rparr>)"

definition worker_turn ::
  "(nat \<Rightarrow> int) \<Rightarrow> PollResult \<Rightarrow> (nat \<Rightarrow> sendto_ret) \<Rightarrow> EventLoop \<Rightarrow> EventLoop" where
  "worker_turn clk ev sendto l =
     (case thread l of
        AtLoopTest \<Rightarrow>
          if \<not> running l then Run_exit clk l
          else
            let l1 = poll_interest l
            in if length (tasks l1) \<noteq> 0 \<or> poll_returns ev l1
               then after_poll clk ev sendto l1
               else l1\<lparr>thread := InPoll\<rparr>
      | InPoll \<Rightarrow> if poll_returns ev l then after_poll clk ev sendto l else l
      | NotJoinable \<Rightarrow> l
      | Returned \<Rightarrow> l)"

text \<open>
  \<^verbatim>\<open>thread.join()\<close> returns when the worker's \<^verbatim>\<open>Run\<close> has returned, and the thread
  object is not joinable afterwards; \<open>None\<close> stands for a join that does not return.
  A worker at the loop test leaves the loop when \<open>running\<close> is false. A worker blocked
  in \<^verbatim>\<open>poll\<close> gets there only when \<^verbatim>\<open>poll\<close> returns: \<open>ev\<close> holds the socket events that
  come while the caller waits, and without them and with nothing to read on the
  signalling descriptor the worker stays blocked.
\<close>

definition leave_loop :: "(nat \<Rightarrow> int) \<Rightarrow> EventLoop \<Rightarrow> EventLoop option" where
  "leave_loop clk l =
     (if running l then None else Some ((Run_exit clk l)\<lparr>thread := NotJoinable\<rparr>))"

definition join ::
  "(nat \<Rightarrow> int) \<Rightarrow> PollResult \<Rightarrow> (nat \<Rightarrow> sendto_ret) \<Rightarrow> EventLoop \<Rightarrow> EventLoop option" where
  "join clk ev sendto l =
     (case thread l of
        NotJoinable \<Rightarrow> Some l
      | Returned \<Rightarrow> Some (l\<lparr>thread := NotJoinable\<rparr>)
      | AtLoopTest \<Rightarrow> leave_loop clk l
      | InPoll \<Rightarrow>
          if poll_returns ev l
          then (case iteration clk ev sendto l of
                  (True, l') \<Rightarrow> Some ((Run_exit clk l')\<lparr>thread := NotJoinable\<rparr>)
                | (False, l') \<Rightarrow> leave_loop clk l')
          else None)"

text \<open>
  \<^verbatim>\<open>Stop\<close>, called from a thread other than the worker: it returns false at once
  when the loop is not running; otherwise \<open>running\<close> is cleared and, when the thread is
  joinable, the loop is signalled and joined. \<open>None\<close> stands for a call that does not
  return. (The closing of the signalling descriptor at the end acts on no field of the
  state.)
\<close>

definition Stop ::
  "(nat \<Rightarrow> int) \<Rightarrow> PollResult \<Rightarrow> (nat \<Rightarrow> sendto_ret) \<Rightarrow> EventLoop \<Rightarrow> (bool \<times> EventLoop) option" where
  "Stop clk ev sendto l =
     (if \<not> running l then Some (False, l)
      else
        let l1 = l\<lparr>running := False\<rparr>
        in if thread l1 \<noteq> NotJoinable
           then (case join clk ev sendto (Signal OtherThread l1) of
                   None \<Rightarrow> None
                 | Some l2 \<Rightarrow> Some (True, l2))
           else Some (True, l1))"

section \<open>The spec's formula and concrete inputs\<close>

text \<open>
  Property P2 of the spec, in its words: after a reset the next \<open>last_timestamp\<close> is
  \<open>L + \<lceil>(t1 - t0) \<cdot> rate / 1000\<rceil> + 1\<close>. On natural numbers the ceiling of \<open>x / 1000\<close>
  is \<open>(x + 999) div 1000\<close>.
\<close>

definition spec_P2_last_timestamp :: "nat \<Rightarrow> nat \<Rightarrow> nat \<Rightarrow> nat \<Rightarrow> nat" where
  "spec_P2_last_timestamp L t0 t1 rate = L + ((t1 - t0) * rate + 999) div 1000 + 1"

text \<open>
  Inputs for the concrete scenarios: collaborators with a payload capacity of 1200
  bytes and an accumulator without state, a descriptor of \<open>n\<close> bytes without prefix, and
  a video frame with a given timestamp and descriptors.
\<close>

definition example_collaborators :: "unit Collaborators" where
  "example_collaborators =
     \<lparr>GetMaxMediaLength = 1200, acumulator_Update = (\<lambda>now val a. a),
      acumulator_UpdateNow = (\<lambda>now a. a), acumulator_GetInstant = (\<lambda>a. 0),
      GetLayerIds = (\<lambda>codec payload. (0, 0))\<rparr>"

definition descriptor :: "DWORD \<Rightarrow> RtpPacketization" where
  "descriptor n =
     \<lparr>GetPos = 0, GetSize = n, GetPrefixData = [], GetPrefixLen = 0, GetTotalLength = n\<rparr>"

definition video_frame :: "DWORD \<Rightarrow> RtpPacketization list \<Rightarrow> MediaFrame" where
  "video_frame ts info =
     \<lparr>GetType = Video, GetCodec = 96, GetData = [], GetLength = 0, GetTimeStamp = ts,
      GetRtpPacketizationInfo = info\<rparr>"

text \<open>
  The spec's scenarios 1 and 2 on a fresh bridge: a video frame with timestamp 1000
  and one descriptor at wall time 1000, then one with timestamp 4000 and three
  descriptors at wall time 1040.
\<close>

definition scenario_two_frames :: "BridgeCall list" where
  "scenario_two_frames =
     [Frame 1000 (video_frame 1000 [descriptor 500]),
      Frame 1040 (video_frame 4000 [descriptor 600, descriptor 600, descriptor 300])]"

text \<open>
  An event loop as constructed (not running, no thread, empty queues), an entry of the
  send queue, a clock that shows 5000 at its first reading and one more at each later
  one, a return of \<^verbatim>\<open>poll\<close> without socket events and one with the socket writable, a
  socket on which every \<^verbatim>\<open>sendto\<close> fails with \<^verbatim>\<open>EAGAIN\<close>, and the loop after \<open>Start\<close>.
\<close>

definition example_entry :: SendBuffer where
  "example_entry = \<lparr>ipAddr = 0x7F000001, port = 9999, packet = [1, 2, 3]\<rparr>"

definition example_loop :: EventLoop where
  "example_loop =
     \<lparr>running = False, thread = NotJoinable, state = Normal, sending = [], tasks = [],
      signaled = False, pipe_pending = 0, cached_now = 0, clock_reads = 0, logged = [],
      effects = [], pending = False, item = \<lparr>ipAddr = 0, port = 0, packet = []\<rparr>,
      datagrams = [], sendto_calls = 0, attempted = [], events_POLLOUT = False,
      has_listener = True\<rparr>"

definition example_clock :: "nat \<Rightarrow> int" where
  "example_clock k = 5000 + int k"

definition quiet_poll :: PollResult where
  "quiet_poll = \<lparr>POLLHUP_or_POLLERR = False, socket_POLLIN = False, socket_writable = False\<rparr>"

definition writable_poll :: PollResult where
  "writable_poll = \<lparr>POLLHUP_or_POLLERR = False, socket_POLLIN = False, socket_writable = True\<rparr>"

definition always_EAGAIN :: "nat \<Rightarrow> sendto_ret" where
  "always_EAGAIN k = Failed EAGAIN"

definition started_loop :: EventLoop where
  "started_loop = snd (Start example_clock example_loop)"

text \<open>
  A running loop in state Lagging whose queue holds one entry more than
  \<open>MaxSendingQueueSize\<close>, its worker blocked in \<^verbatim>\<open>poll\<close>.
\<close>

definition stalled_loop :: EventLoop where
  "stalled_loop =
     example_loop\<lparr>running := True, thread := InPoll, state := Lagging,
       sending := example_entry # replicate 16384 example_entry\<rparr>"

text \<open>
  The started loop after two calls of \<open>Send\<close> from another thread, and after 8194 of
  them: the last one finds 8193 entries queued and sets the state to Lagging.
\<close>

definition two_queued_loop :: EventLoop where
  "two_queued_loop =
     Send OtherThread 0x7F000001 9999 [4, 5, 6]
       (Send OtherThread 0x7F000001 9999 [1, 2, 3] started_loop)"

definition lagging_loop :: EventLoop where
  "lagging_loop =
     Send OtherThread 0x7F000001 9999 [1, 2, 3]
       ((Send OtherThread 0x7F000001 9999 [1, 2, 3] ^^ 8192)
          (Send OtherThread 0x7F000001 9999 [1, 2, 3] started_loop))"



text \<open>
  A loop on which a task was queued before \<open>Start\<close>: the worker runs the task in its
  first iteration and goes to sleep in \<^verbatim>\<open>poll\<close>, and a second task is queued from
  another thread.
\<close>

definition loop_with_lost_signal :: EventLoop where
  "loop_with_lost_signal =
     Async OtherThread \<lparr>promise = 2, func = 20\<rparr>
       (worker_turn example_clock quiet_poll always_EAGAIN
          (worker_turn example_clock quiet_poll always_EAGAIN
             (snd (Start example_clock
                     (Async OtherThread \<lparr>promise = 1, func = 10\<rparr> example_loop)))))"

lemmas bridge_example_defs =
  example_collaborators_def descriptor_def video_frame_def fresh_bridge_def
  onMediaFrame_def HasRtpPacketizationInfo_def frame_kind_def make_packet_def Let_def fits_def
  Reset_def Update_def getTimeDiff_def

section \<open>A frame without packetization info\<close>

text \<open>
  Claim C9. A frame with no packetization info leaves the whole bridge as it was
  (reset latch, timestamps, sequence number and every statistic) and no packet reaches
  any listener.
\<close>

theorem onMediaFrame_no_info_unchanged:
  "\<not> HasRtpPacketizationInfo frame \<Longrightarrow>
   onMediaFrame c now b frame = (b, [])
   \<and> onRTP_received listener b (snd (onMediaFrame c now b frame)) = []"
  by (simp add: onMediaFrame_def onRTP_received_def)

text \<open>The theorem at a bridge with the reset latch armed and a video frame without
  descriptors: the latch stays armed.\<close>

theorem onMediaFrame_no_info_unchanged_witness:
  "\<not> HasRtpPacketizationInfo (video_frame 1000 [])
   \<and> onMediaFrame example_collaborators 1000 (Reset (fresh_bridge 0x1234 ())) (video_frame 1000 [])
       = (Reset (fresh_bridge 0x1234 ()), [])
   \<and> onRTP_received 7 (Reset (fresh_bridge 0x1234 ()))
        (snd (onMediaFrame example_collaborators 1000 (Reset (fresh_bridge 0x1234 ()))
               (video_frame 1000 []))) = []"
proof -
  have h: "\<not> HasRtpPacketizationInfo (video_frame 1000 [])"
    by (simp add: HasRtpPacketizationInfo_def video_frame_def)
  from h onMediaFrame_no_info_unchanged
         [OF h, where c = example_collaborators and now = 1000
            and b = "Reset (fresh_bridge 0x1234 ())" and listener = 7]
  show ?thesis by (simp add: onRTP_received_def)
qed

section \<open>Sequence numbers\<close>

text \<open>
  The packet loop emits one packet for each descriptor that passes the length check and
  advances \<open>extSeqNum\<close> once per packet; the \<open>k\<close>-th packet carries the sequence
  number the bridge had on entry plus \<open>k\<close>.
\<close>

lemma packetize_length:
  "length (snd (packetize c f cd fd r i rest b)) = length (filter (fits c) rest)"
  by (induction rest arbitrary: i b) (simp_all add: fits_def Let_def)

lemma packetize_extSeqNum:
  "extSeqNum (fst (packetize c f cd fd r i rest b)) =
     extSeqNum b + of_nat (length (snd (packetize c f cd fd r i rest b)))"
  by (induction rest arbitrary: i b) (simp_all add: fits_def Let_def)

lemma packetize_seq_nth:
  "k < length (snd (packetize c f cd fd r i rest b)) \<Longrightarrow>
   ExtSeqNum (snd (packetize c f cd fd r i rest b) ! k) = extSeqNum b + of_nat k"
proof (induction rest arbitrary: i b k)
  case Nil
  then show ?case by simp
next
  case (Cons rtp rest)
  show ?case
  proof (cases "GetTotalLength rtp > GetMaxMediaLength c")
    case True
    with Cons show ?thesis by simp
  next
    case False
    show ?thesis
    proof (cases k)
      case 0
      with False show ?thesis by (simp add: Let_def make_packet_def)
    next
      case (Suc k')
      let ?b' = "b\<lparr>extSeqNum := extSeqNum b + 1,
                     lastTimestamp := baseTimestamp b + ucast (GetTimeStamp f - firstTimestamp b),
                     numPackets := numPackets b + 1\<rparr>"
      from False Suc Cons.prems
      have "k' < length (snd (packetize c f cd fd r (Suc i) rest ?b'))"
        by (simp add: Let_def)
      from Cons.IH[OF this] False Suc show ?thesis by (simp add: Let_def)
    qed
  qed
qed

lemma onMediaFrame_extSeqNum:
  "extSeqNum (fst (onMediaFrame c now b frame)) =
     extSeqNum b + of_nat (length (snd (onMediaFrame c now b frame)))"
  by (simp add: onMediaFrame_def Let_def packetize_extSeqNum split: option.split)

lemma onMediaFrame_seq_nth:
  "k < length (snd (onMediaFrame c now b frame)) \<Longrightarrow>
   ExtSeqNum (snd (onMediaFrame c now b frame) ! k) = extSeqNum b + of_nat k"
  by (auto simp: onMediaFrame_def Let_def packetize_seq_nth split: option.splits if_splits)

lemma onMediaFrame_length:
  "frame_kind frame \<noteq> None \<Longrightarrow>
   length (snd (onMediaFrame c now b frame)) =
     length (filter (fits c) (GetRtpPacketizationInfo frame))"
  by (auto simp: onMediaFrame_def Let_def packetize_length HasRtpPacketizationInfo_def
           split: option.splits if_splits)

text \<open>
  Claim C10. An oversized descriptor is skipped before the sequence counter is
  touched: a frame of a supported type consumes exactly as many sequence numbers as it
  has descriptors that fit, and its packets carry the consecutive numbers
  \<open>s, s + 1, \<dots>\<close> from the bridge's \<open>extSeqNum\<close> \<open>s\<close> on entry, with no gap where a
  descriptor was skipped.
\<close>

theorem skipped_descriptor_takes_no_sequence_number:
  assumes "frame_kind frame \<noteq> None"
  shows "map ExtSeqNum (snd (onMediaFrame c now b frame)) =
           map (\<lambda>j. extSeqNum b + of_nat j)
               [0..<length (filter (fits c) (GetRtpPacketizationInfo frame))]
         \<and> extSeqNum (fst (onMediaFrame c now b frame)) =
             extSeqNum b + of_nat (length (filter (fits c) (GetRtpPacketizationInfo frame)))"
proof -
  let ?pkts = "snd (onMediaFrame c now b frame)"
  have len: "length ?pkts = length (filter (fits c) (GetRtpPacketizationInfo frame))"
    using assms by (rule onMediaFrame_length)
  have "map ExtSeqNum ?pkts = map (\<lambda>j. extSeqNum b + of_nat j) [0..<length ?pkts]"
    by (rule nth_equalityI) (simp_all add: onMediaFrame_seq_nth)
  moreover have "extSeqNum (fst (onMediaFrame c now b frame)) = extSeqNum b + of_nat (length ?pkts)"
    by (rule onMediaFrame_extSeqNum)
  ultimately show ?thesis by (simp only: len)
qed

text \<open>The theorem at a frame whose second descriptor of three is oversized, on a bridge
  whose counter stands at 4: the two packets carry 4 and 5 and the counter ends at 6.\<close>

theorem skipped_descriptor_takes_no_sequence_number_witness:
  "frame_kind (video_frame 5000 [descriptor 500, descriptor 5000, descriptor 600]) \<noteq> None
   \<and> \<not> fits example_collaborators (descriptor 5000)
   \<and> map ExtSeqNum
        (snd (onMediaFrame example_collaborators 1060
               ((fresh_bridge 0x1234 ())\<lparr>extSeqNum := 4\<rparr>)
               (video_frame 5000 [descriptor 500, descriptor 5000, descriptor 600]))) = [4, 5]
   \<and> extSeqNum
        (fst (onMediaFrame example_collaborators 1060
               ((fresh_bridge 0x1234 ())\<lparr>extSeqNum := 4\<rparr>)
               (video_frame 5000 [descriptor 500, descriptor 5000, descriptor 600]))) = 6"
proof -
  have h: "frame_kind (video_frame 5000 [descriptor 500, descriptor 5000, descriptor 600]) \<noteq> None"
    by (simp add: frame_kind_def video_frame_def)
  from h skipped_descriptor_takes_no_sequence_number
         [OF h, where c = example_collaborators and now = 1060
            and b = "(fresh_bridge 0x1234 ())\<lparr>extSeqNum := 4\<rparr>"]
  show ?thesis by (simp add: bridge_example_defs)
qed

lemma feed_extSeqNum:
  "extSeqNum (fst (feed c b calls)) = extSeqNum b + of_nat (length (snd (feed c b calls)))"
proof (induction c b calls rule: feed.induct)
  case (2 c b now frame calls)
  then show ?case by (simp add: Let_def onMediaFrame_extSeqNum)
qed (simp_all add: Reset_def Update_def AddListener_def RemoveListener_def Let_def)

lemma feed_seq_nth:
  "k < length (snd (feed c b calls)) \<Longrightarrow>
   ExtSeqNum (snd (feed c b calls) ! k) = extSeqNum b + of_nat k"
proof (induction c b calls arbitrary: k rule: feed.induct)
  case (1 c b)
  then show ?case by simp
next
  case (2 c b now frame calls)
  let ?r = "onMediaFrame c now b frame"
  show ?case
  proof (cases "k < length (snd ?r)")
    case True
    then show ?thesis by (simp add: Let_def nth_append onMediaFrame_seq_nth)
  next
    case False
    with "2.prems" have "k - length (snd ?r) < length (snd (feed c (fst ?r) calls))"
      by (simp add: Let_def)
    from "2.IH"[OF refl this] False show ?thesis
      by (simp add: Let_def nth_append onMediaFrame_extSeqNum)
  qed
next
  case (3 c b calls)
  then show ?case by (simp add: Reset_def)
next
  case (4 c b now calls)
  then show ?case by (simp add: Update_def Let_def)
next
  case (5 c b listener calls)
  then show ?case by (simp add: AddListener_def)
next
  case (6 c b listener calls)
  then show ?case by (simp add: RemoveListener_def)
qed

text \<open>
  Claim C1. Over any history of calls on a bridge (frames, resets, updates, listener
  changes), two packets emitted one after the other have extended sequence numbers
  that differ by exactly 1: the later one is the earlier one plus 1, in the 32-bit
  arithmetic of the counter.
\<close>

theorem consecutive_packets_consecutive_ext_seq:
  "Suc k < length (snd (feed c b calls)) \<Longrightarrow>
   ExtSeqNum (snd (feed c b calls) ! Suc k) = ExtSeqNum (snd (feed c b calls) ! k) + 1"
  by (simp add: feed_seq_nth)

text \<open>The theorem at the boundary between the two frames of the scenario, with a reset
  between them: the last packet of the first frame and the first of the second.\<close>

theorem consecutive_packets_consecutive_ext_seq_witness:
  "Suc 0 < length (snd (feed example_collaborators (fresh_bridge 0x1234 ())
                          [Frame 1000 (video_frame 1000 [descriptor 500]), ResetCall,
                           Frame 1040 (video_frame 4000 [descriptor 600, descriptor 300])]))
   \<and> ExtSeqNum (snd (feed example_collaborators (fresh_bridge 0x1234 ())
                        [Frame 1000 (video_frame 1000 [descriptor 500]), ResetCall,
                         Frame 1040 (video_frame 4000 [descriptor 600, descriptor 300])]) ! Suc 0)
       = ExtSeqNum (snd (feed example_collaborators (fresh_bridge 0x1234 ())
                        [Frame 1000 (video_frame 1000 [descriptor 500]), ResetCall,
                         Frame 1040 (video_frame 4000 [descriptor 600, descriptor 300])]) ! 0) + 1"
proof -
  have h: "Suc 0 < length (snd (feed example_collaborators (fresh_bridge 0x1234 ())
                          [Frame 1000 (video_frame 1000 [descriptor 500]), ResetCall,
                           Frame 1040 (video_frame 4000 [descriptor 600, descriptor 300])]))"
    by (simp add: bridge_example_defs)
  from h consecutive_packets_consecutive_ext_seq [OF h] show ?thesis by simp
qed

section \<open>The mark bit\<close>

text \<open>
  The mark bit is computed from the index of the descriptor, after the length check:
  only a packet built from the last descriptor is marked.
\<close>

lemma packetize_marks:
  "rest \<noteq> [] \<Longrightarrow> i + length rest = length (GetRtpPacketizationInfo f) \<Longrightarrow>
   filter Mark (snd (packetize c f cd fd r i rest b)) =
     (if fits c (last rest) then [last (snd (packetize c f cd fd r i rest b))] else [])
   \<and> (fits c (last rest) \<longrightarrow> snd (packetize c f cd fd r i rest b) \<noteq> [])"
proof (induction rest arbitrary: i b)
  case Nil
  then show ?case by simp
next
  case (Cons rtp rest)
  show ?case
  proof (cases "rest = []")
    case True
    with Cons.prems show ?thesis by (simp add: fits_def Let_def make_packet_def)
  next
    case False
    with Cons.prems have n: "Suc i + length rest = length (GetRtpPacketizationInfo f)"
      and ne: "Suc i \<noteq> length (GetRtpPacketizationInfo f)"
      by (cases rest; simp)+
    from Cons.IH[OF False n] False ne show ?thesis
      by (simp add: Let_def make_packet_def)
  qed
qed

lemma onMediaFrame_is_packetize:
  "HasRtpPacketizationInfo frame \<Longrightarrow> frame_kind frame = Some (cd, fd, fs, r) \<Longrightarrow>
   \<exists>b4. onMediaFrame c now b frame =
          packetize c frame cd fd r 0 (GetRtpPacketizationInfo frame) b4"
  by (auto simp: onMediaFrame_def Let_def)

text \<open>
  Claim C4, as the code has it. For a frame with packetization info and a supported
  type: when the frame's last descriptor passes the length check, exactly one of the
  frame's packets has the mark bit and it is the last one emitted; when the last
  descriptor is oversized, no packet of the frame has the mark bit.
\<close>

theorem mark_bit_follows_last_descriptor:
  assumes "HasRtpPacketizationInfo frame" and "frame_kind frame \<noteq> None"
  shows "filter Mark (snd (onMediaFrame c now b frame)) =
           (if fits c (last (GetRtpPacketizationInfo frame))
            then [last (snd (onMediaFrame c now b frame))] else [])
         \<and> (fits c (last (GetRtpPacketizationInfo frame)) \<longrightarrow>
              snd (onMediaFrame c now b frame) \<noteq> [])"
proof -
  from assms(2) obtain cd fd fs r where "frame_kind frame = Some (cd, fd, fs, r)"
    by (cases "frame_kind frame") auto
  from onMediaFrame_is_packetize[OF assms(1) this] obtain b4 where
    eq: "onMediaFrame c now b frame =
           packetize c frame cd fd r 0 (GetRtpPacketizationInfo frame) b4"
    by blast
  from assms(1) have "GetRtpPacketizationInfo frame \<noteq> []"
    by (simp add: HasRtpPacketizationInfo_def)
  from packetize_marks[OF this, of 0 frame c cd fd r b4] show ?thesis
    by (simp add: eq)
qed

text \<open>The theorem at a frame of three descriptors that all fit: the marks are
  false, false, true.\<close>

theorem mark_bit_follows_last_descriptor_witness:
  "HasRtpPacketizationInfo (video_frame 4000 [descriptor 600, descriptor 600, descriptor 300])
   \<and> frame_kind (video_frame 4000 [descriptor 600, descriptor 600, descriptor 300]) \<noteq> None
   \<and> fits example_collaborators
        (last (GetRtpPacketizationInfo (video_frame 4000 [descriptor 600, descriptor 600, descriptor 300])))
   \<and> map Mark (snd (onMediaFrame example_collaborators 1040 (fresh_bridge 0x1234 ())
                      (video_frame 4000 [descriptor 600, descriptor 600, descriptor 300])))
       = [False, False, True]
   \<and> filter Mark (snd (onMediaFrame example_collaborators 1040 (fresh_bridge 0x1234 ())
                         (video_frame 4000 [descriptor 600, descriptor 600, descriptor 300])))
       = [last (snd (onMediaFrame example_collaborators 1040 (fresh_bridge 0x1234 ())
                      (video_frame 4000 [descriptor 600, descriptor 600, descriptor 300])))]"
proof -
  have h1: "HasRtpPacketizationInfo (video_frame 4000 [descriptor 600, descriptor 600, descriptor 300])"
    by (simp add: HasRtpPacketizationInfo_def video_frame_def)
  have h2: "frame_kind (video_frame 4000 [descriptor 600, descriptor 600, descriptor 300]) \<noteq> None"
    by (simp add: frame_kind_def video_frame_def)
  from h1 h2 mark_bit_follows_last_descriptor
               [OF h1 h2, where c = example_collaborators and now = 1040
                  and b = "fresh_bridge 0x1234 ()"]
  show ?thesis by (simp add: bridge_example_defs)
qed

text \<open>
  Claim C4 as stated fails where the last descriptor is oversized: a video frame with
  a descriptor of 500 bytes and one of 5000 bytes, at a capacity of 1200, is processed
  and emits one packet, and no packet of the frame has the mark bit.
\<close>

theorem mark_bit_counterexample:
  "HasRtpPacketizationInfo (video_frame 1000 [descriptor 500, descriptor 5000])
   \<and> frame_kind (video_frame 1000 [descriptor 500, descriptor 5000]) \<noteq> None
   \<and> length (snd (onMediaFrame example_collaborators 1000 (fresh_bridge 0x1234 ())
                     (video_frame 1000 [descriptor 500, descriptor 5000]))) = 1
   \<and> filter Mark (snd (onMediaFrame example_collaborators 1000 (fresh_bridge 0x1234 ())
                         (video_frame 1000 [descriptor 500, descriptor 5000]))) = []"
  by (simp add: bridge_example_defs)

section \<open>Timestamps\<close>

text \<open>
  The packet loop writes neither the base nor the first timestamp, nor \<open>lastTime\<close>, nor
  the reset latch; every packet of a frame carries the same timestamp, which is also
  the bridge's \<open>lastTimestamp\<close> once a packet has been emitted.
\<close>

lemma packetize_keeps:
  "baseTimestamp (fst (packetize c f cd fd r i rest b)) = baseTimestamp b"
  "firstTimestamp (fst (packetize c f cd fd r i rest b)) = firstTimestamp b"
  "lastTime (fst (packetize c f cd fd r i rest b)) = lastTime b"
  "reset (fst (packetize c f cd fd r i rest b)) = reset b"
  by (induction rest arbitrary: i b; simp add: Let_def)+

lemma packetize_Timestamp:
  "p \<in> set (snd (packetize c f cd fd r i rest b)) \<Longrightarrow>
   Timestamp p = (baseTimestamp b + ucast (GetTimeStamp f - firstTimestamp b)) * ucast r"
  by (induction rest arbitrary: i b) (auto simp: Let_def make_packet_def split: if_splits)

lemma packetize_lastTimestamp:
  "lastTimestamp (fst (packetize c f cd fd r i rest b)) =
     (if snd (packetize c f cd fd r i rest b) = [] then lastTimestamp b
      else baseTimestamp b + ucast (GetTimeStamp f - firstTimestamp b))"
  by (induction rest arbitrary: i b) (auto simp: Let_def split: if_splits)

lemma onMediaFrame_after_Reset:
  assumes "HasRtpPacketizationInfo frame" and "frame_kind frame = Some (cd, fd, fs, r)"
    and "lastTime b \<noteq> 0"
  shows "\<exists>b4. onMediaFrame c now (Reset b) frame =
                packetize c frame cd fd r 0 (GetRtpPacketizationInfo frame) b4
            \<and> baseTimestamp b4 = lastTimestamp b + (now - lastTime b) * ucast r div 1000 + 1
            \<and> firstTimestamp b4 = GetTimeStamp frame"
  using assms
  apply (simp add: onMediaFrame_def Reset_def Let_def getTimeDiff_def)
  apply (rule exI, rule conjI, rule refl)
  apply simp
  done

lemma frame_kind_rate:
  "frame_kind frame = Some (cd, fd, fs, r) \<Longrightarrow>
   (ucast r :: QWORD) = (if GetType frame = Audio then 48 else 90)"
  by (auto simp: frame_kind_def split: MediaType.splits)

text \<open>
  The branch under \<^verbatim>\<open>if (lastTime)\<close>: on a bridge whose \<open>lastTime\<close> is not zero, the
  first frame after \<open>Reset\<close> gets the base \<open>L + (now - lastTime) \<cdot> rate div 1000 + 1\<close>,
  with the division rounding down, and every packet of the frame carries it, times the
  rate.
\<close>

lemma offset_branch_when_lastTime_set:
  assumes "HasRtpPacketizationInfo frame" and "GetType frame \<noteq> OtherMedia"
    and "lastTime b \<noteq> 0"
    and "rate = (if GetType frame = Audio then 48 else 90)"
  shows "(\<forall>p \<in> set (snd (onMediaFrame c now (Reset b) frame)).
            Timestamp p = (lastTimestamp b + (now - lastTime b) * rate div 1000 + 1) * rate)
       \<and> (snd (onMediaFrame c now (Reset b) frame) \<noteq> [] \<longrightarrow>
            lastTimestamp (fst (onMediaFrame c now (Reset b) frame)) =
              lastTimestamp b + (now - lastTime b) * rate div 1000 + 1)"
proof -
  from assms(2) obtain cd fd fs r where k: "frame_kind frame = Some (cd, fd, fs, r)"
    by (cases "GetType frame") (auto simp: frame_kind_def)
  from frame_kind_rate[OF k] assms(4) have r: "ucast r = rate" by simp
  from onMediaFrame_after_Reset[OF assms(1) k assms(3)] obtain b4 where
    eq: "onMediaFrame c now (Reset b) frame =
           packetize c frame cd fd r 0 (GetRtpPacketizationInfo frame) b4"
    and base: "baseTimestamp b4 = lastTimestamp b + (now - lastTime b) * ucast r div 1000 + 1"
    and first: "firstTimestamp b4 = GetTimeStamp frame"
    by blast
  show ?thesis
    using packetize_lastTimestamp[of c frame cd fd r 0 "GetRtpPacketizationInfo frame" b4]
    by (auto simp: eq base first r dest!: packetize_Timestamp)
qed

text \<open>
  Claim C7, as the code has it. On a fresh bridge, a video frame with source timestamp
  1000 and one descriptor of 500 bytes, at a payload capacity of at least 500, produces
  exactly one packet, with sequence number 0, timestamp 0 and the mark bit set: the
  timestamp is relative to the first frame of the segment, \<open>(0 + (1000 - 1000)) \<cdot> 90\<close>.
\<close>

theorem fresh_bridge_first_video_frame:
  assumes "GetTotalLength rtp = 500" and "500 \<le> GetMaxMediaLength c"
  shows "map (\<lambda>p. (ExtSeqNum p, Timestamp p, Mark p))
           (snd (onMediaFrame c now (fresh_bridge src acc)
                  \<lparr>GetType = Video, GetCodec = codec, GetData = bytes, GetLength = len,
                   GetTimeStamp = 1000, GetRtpPacketizationInfo = [rtp]\<rparr>))
         = [(0, 0, True)]"
  using assms
  by (simp add: onMediaFrame_def HasRtpPacketizationInfo_def frame_kind_def fresh_bridge_def
      Let_def make_packet_def not_less[symmetric])

text \<open>The theorem in the scenario itself, at a capacity of 1200 bytes.\<close>

theorem fresh_bridge_first_video_frame_witness:
  "GetTotalLength (descriptor 500) = 500
   \<and> 500 \<le> GetMaxMediaLength example_collaborators
   \<and> map (\<lambda>p. (ExtSeqNum p, Timestamp p, Mark p))
        (snd (onMediaFrame example_collaborators 1000 (fresh_bridge 0x1234 ())
               (video_frame 1000 [descriptor 500]))) = [(0, 0, True)]"
proof -
  have h1: "GetTotalLength (descriptor 500) = 500"
    by (simp add: descriptor_def)
  have h2: "500 \<le> GetMaxMediaLength example_collaborators"
    by (simp add: example_collaborators_def)
  from h1 h2 fresh_bridge_first_video_frame
               [OF h1 h2, where now = 1000 and src = "0x1234" and acc = "()" and codec = 96
                  and bytes = "[]" and len = 0]
  show ?thesis by (simp add: video_frame_def)
qed

text \<open>
  Claim C7 as stated fails: in the scenario the packet's timestamp is not 90000.
\<close>

theorem fresh_bridge_first_video_frame_counterexample:
  "map (\<lambda>p. (ExtSeqNum p, Timestamp p, Mark p))
     (snd (onMediaFrame example_collaborators 1000 (fresh_bridge 0x1234 ())
            (video_frame 1000 [descriptor 500])))
   \<noteq> [(0, 90000, True)]"
  by (simp add: bridge_example_defs)

text \<open>
  No call writes \<open>lastTime\<close>: it keeps the value it had when the history began.
\<close>

lemma onMediaFrame_lastTime: "lastTime (fst (onMediaFrame c now b frame)) = lastTime b"
  by (auto simp: onMediaFrame_def Let_def packetize_keeps split: option.splits)

lemma feed_lastTime: "lastTime (fst (feed c b calls)) = lastTime b"
proof (induction c b calls rule: feed.induct)
  case (2 c b now frame calls)
  then show ?case by (simp add: Let_def onMediaFrame_lastTime)
qed (simp_all add: Reset_def Update_def AddListener_def RemoveListener_def Let_def)

text \<open>
  What every history of calls on a fresh bridge leads to instead: \<open>lastTime\<close> is still
  0, and the first frame after \<open>Reset\<close> that emits a packet leaves \<open>lastTimestamp\<close> where
  it was.
\<close>

lemma onMediaFrame_after_Reset_no_lastTime:
  assumes "HasRtpPacketizationInfo frame" and "frame_kind frame = Some (cd, fd, fs, r)"
    and "lastTime b = 0"
  shows "\<exists>b4. onMediaFrame c now (Reset b) frame =
                packetize c frame cd fd r 0 (GetRtpPacketizationInfo frame) b4
            \<and> baseTimestamp b4 = lastTimestamp b \<and> lastTimestamp b4 = lastTimestamp b
            \<and> firstTimestamp b4 = GetTimeStamp frame"
  using assms
  apply (simp add: onMediaFrame_def Reset_def Let_def)
  apply (rule exI, rule conjI, rule refl)
  apply simp
  done

lemma no_progress_after_any_history:
  assumes "HasRtpPacketizationInfo frame" and "frame_kind frame \<noteq> None"
  shows "lastTimestamp
           (fst (onMediaFrame c now (Reset (fst (feed c (fresh_bridge src acc) calls))) frame))
         = lastTimestamp (fst (feed c (fresh_bridge src acc) calls))"
proof -
  let ?b = "fst (feed c (fresh_bridge src acc) calls)"
  from assms(2) obtain cd fd fs r where k: "frame_kind frame = Some (cd, fd, fs, r)"
    by (cases "frame_kind frame") auto
  have "lastTime ?b = 0" by (simp add: feed_lastTime fresh_bridge_def)
  from onMediaFrame_after_Reset_no_lastTime[OF assms(1) k this] obtain b4 where
    eq: "onMediaFrame c now (Reset ?b) frame =
           packetize c frame cd fd r 0 (GetRtpPacketizationInfo frame) b4"
    and base: "baseTimestamp b4 = lastTimestamp ?b" "lastTimestamp b4 = lastTimestamp ?b"
    and first: "firstTimestamp b4 = GetTimeStamp frame"
    by blast
  show ?thesis
    using packetize_lastTimestamp[of c frame cd fd r 0 "GetRtpPacketizationInfo frame" b4]
    by (simp add: eq base first)
qed

text \<open>
  Claim C2 on the code. A fresh bridge is fed the two frames of the scenario: the
  last packet before the reset is produced at wall time \<open>t0 = 1040\<close> and leaves
  \<open>lastTimestamp\<close> \<open>L = 3000\<close>. After \<open>Reset\<close>, a video frame arrives at \<open>t1 = 1060\<close>.
  The claim's formula gives \<open>3000 + \<lceil>20 \<cdot> 90 / 1000\<rceil> + 1 = 3003\<close>; the code produces
  3000, since \<open>lastTime\<close> is still 0 and no elapsed time is added.
\<close>

theorem timestamp_after_Reset_ignores_elapsed_time:
  "lastTimestamp (fst (feed example_collaborators (fresh_bridge 0x1234 ()) scenario_two_frames))
     = 3000
   \<and> lastTime (fst (feed example_collaborators (fresh_bridge 0x1234 ()) scenario_two_frames)) = 0
   \<and> unat (lastTimestamp
              (fst (onMediaFrame example_collaborators 1060
                     (Reset (fst (feed example_collaborators (fresh_bridge 0x1234 ())
                                   scenario_two_frames)))
                     (video_frame 5000 [descriptor 500])))) = 3000
   \<and> spec_P2_last_timestamp 3000 1040 1060 90 = 3003"
  by (simp add: bridge_example_defs scenario_two_frames_def spec_P2_last_timestamp_def)

text \<open>
  Claim C6 on the code. A fresh bridge is fed the two frames of the scenario, which
  leaves \<open>lastTimestamp = 3000\<close>; it is reset, and a third video frame arrives 20 ms
  later. The claim asks for a timestamp of at least 3001. The code produces 3000 again,
  and the packet repeats the wire timestamp 270000 of the packets before the reset:
  \<open>lastTime\<close> is still 0, so the branch that adds the elapsed time and 1 is not taken.
\<close>

theorem no_progress_across_Reset:
  "lastTimestamp (fst (feed example_collaborators (fresh_bridge 0x1234 ()) scenario_two_frames))
     = 3000
   \<and> lastTime (fst (feed example_collaborators (fresh_bridge 0x1234 ()) scenario_two_frames)) = 0
   \<and> map Timestamp (snd (feed example_collaborators (fresh_bridge 0x1234 ()) scenario_two_frames))
       = [0, 270000, 270000, 270000]
   \<and> lastTimestamp
        (fst (onMediaFrame example_collaborators 1060
               (Reset (fst (feed example_collaborators (fresh_bridge 0x1234 ()) scenario_two_frames)))
               (video_frame 5000 [descriptor 500]))) = 3000
   \<and> map Timestamp
        (snd (onMediaFrame example_collaborators 1060
               (Reset (fst (feed example_collaborators (fresh_bridge 0x1234 ()) scenario_two_frames)))
               (video_frame 5000 [descriptor 500]))) = [270000]"
  by (simp add: bridge_example_defs scenario_two_frames_def)

section \<open>Backpressure in Send\<close>

text \<open>
  Claim C3, as the code has it. \<open>Send\<close> drops its packet exactly when the queue size
  it reads exceeds \<open>MaxSendingQueueSize\<close> (16384); at any size up to 16384 the entry
  is appended, whatever the backpressure state. After an overflow, enqueues succeed
  again as soon as the queue is back at 16384 entries or fewer.
\<close>

theorem Send_drops_only_above_max:
  "sending (Send caller ip prt pkt l) =
     (if length (sending l) > MaxSendingQueueSize then sending l
      else sending l @ [\<lparr>ipAddr = ip, port = prt, packet = pkt\<rparr>])"
  by (simp add: Send_def Signal_def Let_def)

text \<open>The theorem at the stalled loop, whose queue holds 16385 entries: the packet is
  dropped.\<close>

theorem Send_drops_only_above_max_witness:
  "length (sending stalled_loop) > MaxSendingQueueSize
   \<and> sending (Send OtherThread 0x7F000001 9999 [4] stalled_loop) = sending stalled_loop"
proof -
  have h: "length (sending stalled_loop) > MaxSendingQueueSize"
    by (simp add: stalled_loop_def example_loop_def MaxSendingQueueSize_def)
  from h Send_drops_only_above_max
         [where caller = OtherThread and ip = "0x7F000001" and prt = 9999 and pkt = "[4]"
            and l = stalled_loop]
  show ?thesis by simp
qed

text \<open>
  Claim C3 as stated fails. On the stalled loop a first \<open>Send\<close> finds 16385 entries,
  drops its packet and sets the state to Overflown. The worker then takes one entry
  off the queue, which leaves 16384, far above the low-water mark of 4096. The next
  \<open>Send\<close> is enqueued.
\<close>

theorem Send_after_overflow_counterexample:
  "state (Send OtherThread 0x7F000001 9999 [4] stalled_loop) = Overflown
   \<and> sending (Send OtherThread 0x7F000001 9999 [4] stalled_loop) = sending stalled_loop
   \<and> length (sending (try_dequeue (Send OtherThread 0x7F000001 9999 [4] stalled_loop))) = 16384
   \<and> \<not> length (sending (try_dequeue (Send OtherThread 0x7F000001 9999 [4] stalled_loop)))
          < MaxSendingQueueSize div 4
   \<and> sending (Send OtherThread 0x7F000001 9999 [5]
                 (try_dequeue (Send OtherThread 0x7F000001 9999 [4] stalled_loop)))
       = replicate 16384 example_entry @ [\<lparr>ipAddr = 0x7F000001, port = 9999, packet = [5]\<rparr>]"
  by (simp add: Send_def Signal_def Let_def stalled_loop_def example_loop_def try_dequeue_def
      MaxSendingQueueSize_def on_loop_thread_def)

text \<open>
  \<open>Send\<close> never sets the state back to Normal: the low-water branch assigns Lagging.
\<close>

lemma Send_stays_not_Normal: "state l \<noteq> Normal \<Longrightarrow> state (Send caller ip prt pkt l) \<noteq> Normal"
  by (simp add: Send_def Signal_def Let_def)

section \<open>The write phase\<close>

text \<open>One turn of the loop \<^verbatim>\<open>while (pending)\<close>, by the outcome of \<^verbatim>\<open>sendto\<close>.\<close>

lemma send_loop_idle: "\<not> pending l \<Longrightarrow> send_loop sendto l = l"
  by (subst send_loop.simps) simp

lemma send_loop_Sent:
  "pending l \<Longrightarrow> sendto (sendto_calls l) = Sent \<Longrightarrow>
   send_loop sendto l =
     send_loop sendto
       (try_dequeue (l\<lparr>sendto_calls := Suc (sendto_calls l),
                        attempted := attempted l @ [item l],
                        datagrams := datagrams l @ [item l]\<rparr>))"
  by (subst send_loop.simps) simp

lemma send_loop_Failed_Normal:
  "pending l \<Longrightarrow> sendto (sendto_calls l) = Failed e \<Longrightarrow> state l = Normal \<Longrightarrow>
   send_loop sendto l =
     l\<lparr>sendto_calls := Suc (sendto_calls l), attempted := attempted l @ [item l],
       pending := (e = EAGAIN \<or> e = EWOULDBLOCK)\<rparr>"
  by (subst send_loop.simps) simp

lemma send_loop_Failed_other:
  "pending l \<Longrightarrow> sendto (sendto_calls l) = Failed e \<Longrightarrow> state l \<noteq> Normal \<Longrightarrow>
   send_loop sendto l =
     send_loop sendto
       (try_dequeue (l\<lparr>sendto_calls := Suc (sendto_calls l),
                        attempted := attempted l @ [item l]\<rparr>))"
  by (subst send_loop.simps) simp

lemma try_dequeue_cases:
  "state (try_dequeue l) = state l"
  "\<not> pending (try_dequeue l) \<Longrightarrow> sending (try_dequeue l) = []"
  "datagrams (try_dequeue l) = datagrams l"
  "attempted (try_dequeue l) = attempted l"
  "(if pending (try_dequeue l) then [item (try_dequeue l)] else []) @ sending (try_dequeue l)
     = sending l"
  by (simp_all add: try_dequeue_def split: list.splits)

lemma send_loop_cases [consumes 0, case_names idle Sent Failed_Normal Failed_other]:
  assumes "\<not> pending l \<Longrightarrow> P"
    and "pending l \<Longrightarrow> sendto (sendto_calls l) = Sent \<Longrightarrow> P"
    and "\<And>e. pending l \<Longrightarrow> sendto (sendto_calls l) = Failed e \<Longrightarrow> state l = Normal \<Longrightarrow> P"
    and "\<And>e. pending l \<Longrightarrow> sendto (sendto_calls l) = Failed e \<Longrightarrow> state l \<noteq> Normal \<Longrightarrow> P"
  shows P
  using assms by (cases "sendto (sendto_calls l)") auto

text \<open>
  The entries handed to \<^verbatim>\<open>sendto\<close> only grow in number, and a pending entry is the
  first one the loop hands over.
\<close>

lemma send_loop_attempted_grows:
  "\<exists>rest. attempted (send_loop sendto l) = attempted l @ rest"
proof (induction sendto l rule: send_loop.induct)
  case (1 sendto l)
  show ?case
  proof (cases rule: send_loop_cases[where l = l and sendto = sendto])
    case idle
    then show ?thesis by (simp add: send_loop_idle)
  next
    case Sent
    from "1.IH"(1)[OF _ Sent(2)] Sent(1)
    show ?thesis by (auto simp: send_loop_Sent[where l = l and sendto = sendto, OF Sent] try_dequeue_cases)
  next
    case (Failed_Normal e)
    then show ?thesis by (simp add: send_loop_Failed_Normal[where l = l and sendto = sendto, OF Failed_Normal])
  next
    case (Failed_other e)
    from "1.IH"(2)[OF _ Failed_other(2) Failed_other(3)] Failed_other(1)
    show ?thesis by (auto simp: send_loop_Failed_other[where l = l and sendto = sendto, OF Failed_other] try_dequeue_cases)
  qed
qed

lemma send_loop_attempts_item_first:
  assumes "pending l"
  shows "\<exists>rest. attempted (send_loop sendto l) = attempted l @ item l # rest"
proof (cases rule: send_loop_cases[where l = l and sendto = sendto])
  case idle
  with assms show ?thesis by simp
next
  case Sent
  let ?l' = "try_dequeue (l\<lparr>sendto_calls := Suc (sendto_calls l),
                        attempted := attempted l @ [item l],
                        datagrams := datagrams l @ [item l]\<rparr>)"
  from send_loop_attempted_grows[of sendto ?l'] show ?thesis
    by (auto simp: send_loop_Sent[where l = l and sendto = sendto, OF Sent] try_dequeue_cases)
next
  case (Failed_Normal e)
  then show ?thesis by (simp add: send_loop_Failed_Normal[where l = l and sendto = sendto, OF Failed_Normal])
next
  case (Failed_other e)
  let ?l' = "try_dequeue (l\<lparr>sendto_calls := Suc (sendto_calls l),
                        attempted := attempted l @ [item l]\<rparr>)"
  from send_loop_attempted_grows[of sendto ?l'] show ?thesis
    by (auto simp: send_loop_Failed_other[where l = l and sendto = sendto, OF Failed_other] try_dequeue_cases)
qed




lemma task_phase_eq:
  "task_phase t l =
     l\<lparr>tasks := [],
       effects := effects l
                  @ concat (map (\<lambda>task. [Called (func task) t, SetValue (promise task)]) (tasks l))\<rparr>"
proof (induction "tasks l" arbitrary: l)
  case Nil
  then show ?case by (subst task_phase.simps) simp
next
  case (Cons task q)
  from Cons(2)[symmetric]
       Cons(1)[of "l\<lparr>tasks := q,
                      effects := effects l @ [Called (func task) t, SetValue (promise task)]\<rparr>"]
  show ?case by (subst task_phase.simps) simp
qed

lemma after_write_keeps:
  "pending (after_write clk t l) = pending l" "item (after_write clk t l) = item l"
  "sending (after_write clk t l) = sending l" "attempted (after_write clk t l) = attempted l"
  "datagrams (after_write clk t l) = datagrams l" "state (after_write clk t l) = state l"
  by (simp_all add: after_write_def Let_def Now_def task_phase_eq)

text \<open>
  Outside state Normal no failure stops the loop. It ends with nothing pending and,
  when it ran at all, with an empty queue; every entry has been handed to \<^verbatim>\<open>sendto\<close>
  once; and the datagrams sent are entries of the queue, in queue order, together with
  the pending one when its call succeeded.
\<close>

lemma send_loop_not_Normal:
  "state l \<noteq> Normal \<Longrightarrow>
   \<not> pending (send_loop sendto l) \<and> (pending l \<longrightarrow> sending (send_loop sendto l) = [])"
proof (induction sendto l rule: send_loop.induct)
  case (1 sendto l)
  show ?case
  proof (cases rule: send_loop_cases[where l = l and sendto = sendto])
    case idle
    then show ?thesis by (simp add: send_loop_idle)
  next
    case Sent
    let ?l' = "try_dequeue (l\<lparr>sendto_calls := Suc (sendto_calls l),
                        attempted := attempted l @ [item l],
                        datagrams := datagrams l @ [item l]\<rparr>)"
    have "state ?l' \<noteq> Normal" using "1.prems" by (simp add: try_dequeue_cases)
    with "1.IH"(1) Sent
    have "\<not> pending (send_loop sendto ?l')
          \<and> (pending ?l' \<longrightarrow> sending (send_loop sendto ?l') = [])"
      by simp
    then show ?thesis
      using Sent(1)
      by (cases "pending ?l'")
         (simp_all add: send_loop_Sent[where l = l and sendto = sendto, OF Sent] send_loop_idle try_dequeue_cases)
  next
    case (Failed_Normal e)
    with "1.prems" show ?thesis by simp
  next
    case (Failed_other e)
    let ?l' = "try_dequeue (l\<lparr>sendto_calls := Suc (sendto_calls l),
                        attempted := attempted l @ [item l]\<rparr>)"
    have "state ?l' \<noteq> Normal" using "1.prems" by (simp add: try_dequeue_cases)
    with "1.IH"(2) Failed_other
    have "\<not> pending (send_loop sendto ?l')
          \<and> (pending ?l' \<longrightarrow> sending (send_loop sendto ?l') = [])"
      by simp
    then show ?thesis
      using Failed_other(1)
      by (cases "pending ?l'")
         (simp_all add: send_loop_Failed_other[where l = l and sendto = sendto, OF Failed_other] send_loop_idle try_dequeue_cases)
  qed
qed

lemma try_dequeue_rest:
  "(if pending (try_dequeue u) then item (try_dequeue u) # sending (try_dequeue u) else [])
     = sending u"
  by (simp add: try_dequeue_def split: list.splits)

lemma send_loop_attempts_all:
  "state l \<noteq> Normal \<Longrightarrow>
   attempted (send_loop sendto l) =
     attempted l @ (if pending l then item l # sending l else [])"
proof (induction sendto l rule: send_loop.induct)
  case (1 sendto l)
  show ?case
  proof (cases rule: send_loop_cases[where l = l and sendto = sendto])
    case idle
    then show ?thesis by (simp add: send_loop_idle)
  next
    case Sent
    let ?u = "l\<lparr>sendto_calls := Suc (sendto_calls l), attempted := attempted l @ [item l],
                 datagrams := datagrams l @ [item l]\<rparr>"
    have "state (try_dequeue ?u) \<noteq> Normal" using "1.prems" by (simp add: try_dequeue_cases)
    from "1.IH"(1)[OF _ Sent(2) this] Sent(1)
    show ?thesis
      by (simp add: send_loop_Sent[where l = l and sendto = sendto, OF Sent] try_dequeue_cases(4)
          try_dequeue_rest[of ?u, simplified])
  next
    case (Failed_Normal e)
    with "1.prems" show ?thesis by simp
  next
    case (Failed_other e)
    let ?u = "l\<lparr>sendto_calls := Suc (sendto_calls l), attempted := attempted l @ [item l]\<rparr>"
    have "state (try_dequeue ?u) \<noteq> Normal" using "1.prems" by (simp add: try_dequeue_cases)
    from "1.IH"(2)[OF _ Failed_other(2,3) this] Failed_other(1)
    show ?thesis
      by (simp add: send_loop_Failed_other[where l = l and sendto = sendto, OF Failed_other]
          try_dequeue_cases(4) try_dequeue_rest[of ?u, simplified])
  qed
qed

lemma send_loop_datagrams_from_queue:
  "state l \<noteq> Normal \<Longrightarrow>
   \<exists>ds. datagrams (send_loop sendto l) = datagrams l @ ds
        \<and> subseq ds ((if pending l then [item l] else []) @ sending l)"
proof (induction sendto l rule: send_loop.induct)
  case (1 sendto l)
  show ?case
  proof (cases rule: send_loop_cases[where l = l and sendto = sendto])
    case idle
    then show ?thesis by (simp add: send_loop_idle)
  next
    case Sent
    let ?l' = "try_dequeue (l\<lparr>sendto_calls := Suc (sendto_calls l),
                        attempted := attempted l @ [item l],
                        datagrams := datagrams l @ [item l]\<rparr>)"
    have "state ?l' \<noteq> Normal" using "1.prems" by (simp add: try_dequeue_cases)
    with "1.IH"(1) Sent
    obtain ds where "datagrams (send_loop sendto ?l') = datagrams ?l' @ ds"
      and "subseq ds ((if pending ?l' then [item ?l'] else []) @ sending ?l')"
      by auto
    then have "datagrams (send_loop sendto l) = datagrams l @ item l # ds"
      and "subseq (item l # ds) (item l # sending l)"
      using try_dequeue_cases(5)[of "l\<lparr>sendto_calls := Suc (sendto_calls l),
                        attempted := attempted l @ [item l],
                        datagrams := datagrams l @ [item l]\<rparr>"]
      by (simp_all add: send_loop_Sent[where l = l and sendto = sendto, OF Sent] try_dequeue_cases(3))
    with Sent(1) show ?thesis by auto
  next
    case (Failed_Normal e)
    with "1.prems" show ?thesis by simp
  next
    case (Failed_other e)
    let ?l' = "try_dequeue (l\<lparr>sendto_calls := Suc (sendto_calls l),
                        attempted := attempted l @ [item l]\<rparr>)"
    have "state ?l' \<noteq> Normal" using "1.prems" by (simp add: try_dequeue_cases)
    with "1.IH"(2) Failed_other
    obtain ds where "datagrams (send_loop sendto ?l') = datagrams ?l' @ ds"
      and "subseq ds ((if pending ?l' then [item ?l'] else []) @ sending ?l')"
      by auto
    then have "datagrams (send_loop sendto l) = datagrams l @ ds"
      and "subseq ds (sending l)"
      using try_dequeue_cases(5)[of "l\<lparr>sendto_calls := Suc (sendto_calls l),
                        attempted := attempted l @ [item l]\<rparr>"]
      by (simp_all add: send_loop_Failed_other[where l = l and sendto = sendto, OF Failed_other] try_dequeue_cases(3))
    with Failed_other(1) show ?thesis by auto
  qed
qed

lemma send_loop_all_fail:
  "(\<And>k. sendto k \<noteq> Sent) \<Longrightarrow> datagrams (send_loop sendto l) = datagrams l"
proof (induction sendto l rule: send_loop.induct)
  case (1 sendto l)
  show ?case
  proof (cases rule: send_loop_cases[where l = l and sendto = sendto])
    case idle
    then show ?thesis by (simp add: send_loop_idle)
  next
    case Sent
    with "1.prems" show ?thesis by simp
  next
    case (Failed_Normal e)
    then show ?thesis
      by (simp add: send_loop_Failed_Normal[where l = l and sendto = sendto, OF Failed_Normal])
  next
    case (Failed_other e)
    from "1.IH"(2)[OF _ Failed_other(2) Failed_other(3) "1.prems"] Failed_other(1) show ?thesis
      by (simp add: send_loop_Failed_other[where l = l and sendto = sendto, OF Failed_other]
          try_dequeue_cases)
  qed
qed

text \<open>
  An iteration whose write phase runs with an entry pending hands that entry to
  \<^verbatim>\<open>sendto\<close> first.
\<close>

lemma iteration_retries_pending:
  assumes "pending l" and "events_POLLOUT l" and "socket_writable ev"
    and "\<not> POLLHUP_or_POLLERR ev"
  shows "\<exists>rest. attempted (snd (iteration clk ev sendto l)) = attempted l @ item l # rest"
proof -
  let ?l1 = "Now clk l"
  let ?l2 = "if socket_POLLIN ev \<and> has_listener ?l1
             then ?l1\<lparr>effects := effects ?l1 @ [OnRead]\<rparr> else ?l1"
  have p: "pending ?l2" "item ?l2 = item l" "attempted ?l2 = attempted l" "events_POLLOUT ?l2"
    using assms(1,2) by (simp_all add: Now_def)
  from send_loop_attempts_item_first[OF p(1), of sendto] p(2,3)
  obtain rest where "attempted (send_loop sendto ?l2) = attempted l @ item l # rest"
    by auto
  moreover have "snd (iteration clk ev sendto l)
                   = after_write clk (cached_now ?l1) (send_loop sendto ?l2)"
    using assms(3,4) p(1,4) by (simp add: iteration_def Let_def write_phase_def)
  ultimately show ?thesis by (simp add: after_write_keeps)
qed

text \<open>
  Claim C5, as the code has it. When \<^verbatim>\<open>sendto\<close> fails on the current entry with
  \<^verbatim>\<open>EAGAIN\<close> or \<^verbatim>\<open>EWOULDBLOCK\<close>: in state Normal the entry is retained, the loop stops
  with the entry still pending and the queue untouched, and, the queue not being
  empty, the next iteration, when poll reports the socket writable and no error,
  hands the same entry to \<^verbatim>\<open>sendto\<close> again before any queued entry; in state Lagging or Overflown the entry is
  not retained: the loop goes on through the queue and ends with nothing pending and
  an empty queue, and the datagrams it has sent are entries of the queue.
\<close>

theorem sendto_EAGAIN_by_state:
  assumes "pending l" and "sendto (sendto_calls l) = Failed e"
    and "e = EAGAIN \<or> e = EWOULDBLOCK"
  shows "(state l = Normal \<longrightarrow>
            send_loop sendto l =
              l\<lparr>sendto_calls := Suc (sendto_calls l), attempted := attempted l @ [item l]\<rparr>
            \<and> (sending l \<noteq> [] \<and> socket_writable ev \<and> \<not> POLLHUP_or_POLLERR ev \<longrightarrow>
                 (\<exists>rest. attempted (snd (iteration clk ev sendto'
                                           (poll_interest (after_write clk t (send_loop sendto l)))))
                          = attempted l @ item l # item l # rest)))
       \<and> (state l \<noteq> Normal \<longrightarrow>
            \<not> pending (send_loop sendto l) \<and> sending (send_loop sendto l) = []
            \<and> (\<exists>ds. datagrams (send_loop sendto l) = datagrams l @ ds \<and> subseq ds (sending l)))"
proof (intro conjI impI)
  assume n: "state l = Normal"
  from assms n show kept: "send_loop sendto l =
              l\<lparr>sendto_calls := Suc (sendto_calls l), attempted := attempted l @ [item l]\<rparr>"
    by (auto simp: send_loop_Failed_Normal[where l = l and sendto = sendto and e = e])
  assume w: "sending l \<noteq> [] \<and> socket_writable ev \<and> \<not> POLLHUP_or_POLLERR ev"
  let ?k = "l\<lparr>sendto_calls := Suc (sendto_calls l), attempted := attempted l @ [item l]\<rparr>"
  let ?n = "poll_interest (after_write clk t ?k)"
  have p: "pending ?n" "item ?n = item l" "attempted ?n = attempted l @ [item l]"
    "events_POLLOUT ?n"
    using assms(1) w by (simp_all add: poll_interest_def after_write_keeps)
  from iteration_retries_pending[OF p(1) p(4), of ev clk sendto'] w p(2,3)
  show "\<exists>rest. attempted (snd (iteration clk ev sendto'
                                           (poll_interest (after_write clk t (send_loop sendto l)))))
                          = attempted l @ item l # item l # rest"
    by (simp add: kept)
next
  assume n: "state l \<noteq> Normal"
  from send_loop_not_Normal[OF n, of sendto] assms(1)
  show "\<not> pending (send_loop sendto l)" and "sending (send_loop sendto l) = []"
    by simp_all
  let ?l' = "try_dequeue (l\<lparr>sendto_calls := Suc (sendto_calls l),
                        attempted := attempted l @ [item l]\<rparr>)"
  have "state ?l' \<noteq> Normal" using n by (simp add: try_dequeue_cases)
  from send_loop_datagrams_from_queue[OF this, of sendto]
       try_dequeue_cases(5)[of "l\<lparr>sendto_calls := Suc (sendto_calls l),
                        attempted := attempted l @ [item l]\<rparr>"]
  show "\<exists>ds. datagrams (send_loop sendto l) = datagrams l @ ds \<and> subseq ds (sending l)"
    by (simp add: send_loop_Failed_other[where l = l and sendto = sendto, OF assms(1,2) n]
        try_dequeue_cases(3))
qed

text \<open>
  The theorem on the started loop with two entries queued, state Normal, the worker
  having taken the first: the entry stays pending, and the next iteration, in which
  every \<^verbatim>\<open>sendto\<close> succeeds, hands it over again, then the second entry. And on the
  loop in state Lagging with 8194 entries, the worker having taken the first.
\<close>

lemma Send_step_Normal:
  "state l = Normal \<Longrightarrow> signaled l \<Longrightarrow> length (sending l) \<le> MaxSendingQueueSize div 2 \<Longrightarrow>
   Send OtherThread ip prt pkt l = l\<lparr>sending := sending l @ [\<lparr>ipAddr = ip, port = prt, packet = pkt\<rparr>]\<rparr>"
  by (simp add: Send_def Signal_def Let_def MaxSendingQueueSize_def)

lemma Send_funpow_Normal:
  assumes "state l = Normal" and "signaled l"
    and "length (sending l) + n \<le> Suc (MaxSendingQueueSize div 2)"
  shows "(Send OtherThread ip prt pkt ^^ n) l =
           l\<lparr>sending := sending l @ replicate n \<lparr>ipAddr = ip, port = prt, packet = pkt\<rparr>\<rparr>"
  using assms(3)
proof (induction n)
  case 0
  then show ?case by simp
next
  case (Suc n)
  let ?m = "l\<lparr>sending := sending l @ replicate n \<lparr>ipAddr = ip, port = prt, packet = pkt\<rparr>\<rparr>"
  from Suc have ih: "(Send OtherThread ip prt pkt ^^ n) l = ?m"
    by simp
  have "(Send OtherThread ip prt pkt ^^ Suc n) l
          = Send OtherThread ip prt pkt ((Send OtherThread ip prt pkt ^^ n) l)"
    by simp
  also have "\<dots> = Send OtherThread ip prt pkt ?m"
    by (simp only: ih)
  also have "\<dots> = ?m\<lparr>sending := sending ?m @ [\<lparr>ipAddr = ip, port = prt, packet = pkt\<rparr>]\<rparr>"
    using Suc.prems assms(1,2) by (intro Send_step_Normal) simp_all
  also have "\<dots> = l\<lparr>sending := sending l @ replicate (Suc n) \<lparr>ipAddr = ip, port = prt, packet = pkt\<rparr>\<rparr>"
    by (simp add: replicate_append_same)
  finally show ?case .
qed

lemma lagging_loop_eq:
  "lagging_loop =
     started_loop\<lparr>state := Lagging, sending := replicate 8194 example_entry, signaled := True,
       pipe_pending := 1, logged := [SendingQueueLaggingBehind 8193]\<rparr>"
proof -
  let ?e = "\<lparr>ipAddr = 0x7F000001, port = 9999, packet = [1, 2, 3]\<rparr> :: SendBuffer"
  let ?l1 = "Send OtherThread 0x7F000001 9999 [1, 2, 3] started_loop"
  have l1: "?l1 = started_loop\<lparr>sending := [?e], signaled := True, pipe_pending := 1\<rparr>"
    by (simp add: Send_def Let_def MaxSendingQueueSize_def example_loop_def example_entry_def example_clock_def writable_poll_def
        started_loop_def Start_def Now_def Signal_def on_loop_thread_def)
  have "(Send OtherThread 0x7F000001 9999 [1, 2, 3] ^^ 8192) ?l1 =
          ?l1\<lparr>sending := sending ?l1 @ replicate 8192 ?e\<rparr>"
    by (rule Send_funpow_Normal; simp only: l1; simp add: MaxSendingQueueSize_def example_loop_def example_entry_def example_clock_def writable_poll_def
        started_loop_def Start_def Now_def Signal_def on_loop_thread_def)
  also have "\<dots> = started_loop\<lparr>sending := ?e # replicate 8192 ?e, signaled := True,
                                pipe_pending := 1\<rparr>"
    by (simp only: l1) simp
  finally have l2: "(Send OtherThread 0x7F000001 9999 [1, 2, 3] ^^ 8192) ?l1 =
                      started_loop\<lparr>sending := ?e # replicate 8192 ?e, signaled := True,
                                pipe_pending := 1\<rparr>" .
  have n: "(8194::nat) = Suc (Suc 8192)" by simp
  have "replicate 8194 ?e = ?e # ?e # replicate 8192 ?e"
    by (simp only: n replicate.simps)
  then have q: "(?e # replicate 8192 ?e) @ [?e] = replicate 8194 example_entry"
    by (simp only: example_entry_def append_Cons replicate_append_same)
  have "lagging_loop =
          started_loop\<lparr>state := Lagging, sending := (?e # replicate 8192 ?e) @ [?e],
            signaled := True, pipe_pending := 1, logged := [SendingQueueLaggingBehind 8193]\<rparr>"
    unfolding lagging_loop_def l2
    by (simp add: Send_def Let_def MaxSendingQueueSize_def example_loop_def example_entry_def example_clock_def writable_poll_def
        started_loop_def Start_def Now_def Signal_def on_loop_thread_def)
  then show ?thesis by (simp only: q)
qed
theorem sendto_EAGAIN_by_state_witness:
  "pending (try_dequeue (Now example_clock (poll_interest two_queued_loop)))
   \<and> always_EAGAIN (sendto_calls (try_dequeue (Now example_clock (poll_interest two_queued_loop)))) = Failed EAGAIN
   \<and> (EAGAIN = EAGAIN \<or> EAGAIN = EWOULDBLOCK)
   \<and> state (try_dequeue (Now example_clock (poll_interest two_queued_loop))) = Normal
   \<and> send_loop always_EAGAIN (try_dequeue (Now example_clock (poll_interest two_queued_loop)))
       = (try_dequeue (Now example_clock (poll_interest two_queued_loop)))
           \<lparr>sendto_calls := Suc 0,
             attempted := [\<lparr>ipAddr = 0x7F000001, port = 9999, packet = [1, 2, 3]\<rparr>]\<rparr>
   \<and> sending (try_dequeue (Now example_clock (poll_interest two_queued_loop))) \<noteq> [] \<and> socket_writable writable_poll
   \<and> \<not> POLLHUP_or_POLLERR writable_poll
   \<and> attempted (snd (iteration example_clock writable_poll (\<lambda>k. Sent)
                        (poll_interest (after_write example_clock 5001
                           (send_loop always_EAGAIN (try_dequeue (Now example_clock (poll_interest two_queued_loop))))))))
       = [\<lparr>ipAddr = 0x7F000001, port = 9999, packet = [1, 2, 3]\<rparr>,
          \<lparr>ipAddr = 0x7F000001, port = 9999, packet = [1, 2, 3]\<rparr>,
          \<lparr>ipAddr = 0x7F000001, port = 9999, packet = [4, 5, 6]\<rparr>]
   \<and> pending (try_dequeue (Now example_clock (poll_interest lagging_loop)))
   \<and> always_EAGAIN (sendto_calls (try_dequeue (Now example_clock (poll_interest lagging_loop)))) = Failed EAGAIN
   \<and> state (try_dequeue (Now example_clock (poll_interest lagging_loop))) \<noteq> Normal
   \<and> \<not> pending (send_loop always_EAGAIN (try_dequeue (Now example_clock (poll_interest lagging_loop))))
   \<and> sending (send_loop always_EAGAIN (try_dequeue (Now example_clock (poll_interest lagging_loop)))) = []
   \<and> (\<exists>ds. datagrams (send_loop always_EAGAIN (try_dequeue (Now example_clock (poll_interest lagging_loop))))
               = datagrams (try_dequeue (Now example_clock (poll_interest lagging_loop))) @ ds
             \<and> subseq ds (sending (try_dequeue (Now example_clock (poll_interest lagging_loop)))))"
proof -
  let ?n = "try_dequeue (Now example_clock (poll_interest two_queued_loop))"
  let ?g = "try_dequeue (Now example_clock (poll_interest lagging_loop))"
  have two: "two_queued_loop =
               started_loop\<lparr>sending := [\<lparr>ipAddr = 0x7F000001, port = 9999, packet = [1, 2, 3]\<rparr>,
                                        \<lparr>ipAddr = 0x7F000001, port = 9999, packet = [4, 5, 6]\<rparr>],
                 signaled := True, pipe_pending := 1\<rparr>"
    by (simp add: two_queued_loop_def Send_def Let_def MaxSendingQueueSize_def example_loop_def example_entry_def example_clock_def writable_poll_def
        started_loop_def Start_def Now_def Signal_def on_loop_thread_def)
  have h1: "pending ?n" by (simp add: two try_dequeue_def Now_def poll_interest_def)
  have h2: "always_EAGAIN (sendto_calls ?n) = Failed EAGAIN" by (simp add: always_EAGAIN_def)
  have h3: "EAGAIN = EAGAIN \<or> EAGAIN = EWOULDBLOCK" by simp
  have n: "(8194::nat) = Suc 8193" by simp
  have r: "replicate 8194 example_entry = example_entry # replicate 8193 example_entry"
    by (simp only: n replicate.simps)
  have g1: "pending ?g" by (simp add: lagging_loop_eq try_dequeue_def Now_def poll_interest_def r)
  have g2: "always_EAGAIN (sendto_calls ?g) = Failed EAGAIN" by (simp add: always_EAGAIN_def)
  have g4: "state ?g \<noteq> Normal" by (simp add: lagging_loop_eq try_dequeue_def Now_def poll_interest_def r)
  have a: "pending ?n \<and> always_EAGAIN (sendto_calls ?n) = Failed EAGAIN
           \<and> (EAGAIN = EAGAIN \<or> EAGAIN = EWOULDBLOCK) \<and> state ?n = Normal
           \<and> send_loop always_EAGAIN ?n
               = ?n\<lparr>sendto_calls := Suc 0,
                     attempted := [\<lparr>ipAddr = 0x7F000001, port = 9999, packet = [1, 2, 3]\<rparr>]\<rparr>
           \<and> sending ?n \<noteq> [] \<and> socket_writable writable_poll
           \<and> \<not> POLLHUP_or_POLLERR writable_poll
           \<and> attempted (snd (iteration example_clock writable_poll (\<lambda>k. Sent)
                                (poll_interest (after_write example_clock 5001
                                   (send_loop always_EAGAIN ?n)))))
               = [\<lparr>ipAddr = 0x7F000001, port = 9999, packet = [1, 2, 3]\<rparr>,
                  \<lparr>ipAddr = 0x7F000001, port = 9999, packet = [1, 2, 3]\<rparr>,
                  \<lparr>ipAddr = 0x7F000001, port = 9999, packet = [4, 5, 6]\<rparr>]"
    using sendto_EAGAIN_by_state
         [where l = ?n and sendto = always_EAGAIN and e = EAGAIN and ev = writable_poll
            and clk = example_clock and t = 5001 and sendto' = "\<lambda>k. Sent", OF h1 h2 h3]
          h1 h2
    by (simp add: two try_dequeue_def example_loop_def example_entry_def example_clock_def writable_poll_def
        started_loop_def Start_def Now_def Signal_def on_loop_thread_def iteration_def poll_interest_def
        after_write_def Let_def task_phase_eq write_phase_def send_loop.simps)
  have b: "\<not> pending (send_loop always_EAGAIN ?g) \<and> sending (send_loop always_EAGAIN ?g) = []
           \<and> (\<exists>ds. datagrams (send_loop always_EAGAIN ?g) = datagrams ?g @ ds
                     \<and> subseq ds (sending ?g))"
    using sendto_EAGAIN_by_state
         [where l = ?g and sendto = always_EAGAIN and e = EAGAIN, OF g1 g2 h3] g4
    by blast
  from a b g1 g2 g4 show ?thesis by blast
qed

text \<open>
  Claim C5 as stated fails outside state Normal. On the loop that 8194 calls of \<open>Send\<close>
  have put in state Lagging, the worker's next turn finds the socket writable and
  every \<^verbatim>\<open>sendto\<close> failing with \<^verbatim>\<open>EAGAIN\<close>: each of the 8194 entries is handed to
  \<^verbatim>\<open>sendto\<close> once, none is kept, and the turn ends with nothing pending, an empty queue
  and no datagram sent.
\<close>

theorem sendto_EAGAIN_counterexample:
  "state lagging_loop = Lagging \<and> length (sending lagging_loop) = 8194
   \<and> thread lagging_loop = AtLoopTest \<and> running lagging_loop
   \<and> \<not> pending (worker_turn example_clock writable_poll always_EAGAIN lagging_loop)
   \<and> sending (worker_turn example_clock writable_poll always_EAGAIN lagging_loop) = []
   \<and> datagrams (worker_turn example_clock writable_poll always_EAGAIN lagging_loop) = []
   \<and> attempted (worker_turn example_clock writable_poll always_EAGAIN lagging_loop)
       = replicate 8194 example_entry"
proof -
  let ?l2 = "Now example_clock (poll_interest lagging_loop)"
  let ?d = "try_dequeue ?l2"
  have f: "state lagging_loop = Lagging" "sending lagging_loop = replicate 8194 example_entry"
    "thread lagging_loop = AtLoopTest" "running lagging_loop" "pipe_pending lagging_loop = 1"
    "\<not> pending lagging_loop" "datagrams lagging_loop = []" "attempted lagging_loop = []"
    "tasks lagging_loop = []"
    by (simp_all add: lagging_loop_eq example_loop_def example_entry_def example_clock_def writable_poll_def
        started_loop_def Start_def Now_def Signal_def on_loop_thread_def)
  have n: "(8194::nat) = Suc 8193" by simp
  have r: "replicate 8194 example_entry = example_entry # replicate 8193 example_entry"
    by (simp only: n replicate.simps)
  have d: "pending ?d" "state ?d \<noteq> Normal" "datagrams ?d = []" "attempted ?d = []"
    "item ?d # sending ?d = replicate 8194 example_entry"
    using f by (simp_all add: try_dequeue_def Now_def poll_interest_def r)
  have w: "worker_turn example_clock writable_poll always_EAGAIN lagging_loop
             = (after_write example_clock (cached_now ?l2) (send_loop always_EAGAIN ?d))
                 \<lparr>thread := AtLoopTest\<rparr>"
    using f
    by (simp add: worker_turn_def after_poll_def iteration_def poll_returns_def Let_def
        write_phase_def writable_poll_def)
       (simp add: poll_interest_def Now_def)
  have "\<not> pending (send_loop always_EAGAIN ?d)" "sending (send_loop always_EAGAIN ?d) = []"
    using send_loop_not_Normal[OF d(2), of always_EAGAIN] d(1) by simp_all
  moreover have "datagrams (send_loop always_EAGAIN ?d) = []"
    using send_loop_all_fail[of always_EAGAIN ?d] d(3) by (simp add: always_EAGAIN_def)
  moreover have "attempted (send_loop always_EAGAIN ?d) = replicate 8194 example_entry"
    using send_loop_attempts_all[OF d(2), of always_EAGAIN] d(1,4,5) by simp
  ultimately show ?thesis
    using f by (simp add: w after_write_keeps)
qed

text \<open>
  With the queue empty the head of the iteration does not ask for \<^verbatim>\<open>POLLOUT\<close>, and the
  write phase is not entered: a retained entry is then not handed to \<^verbatim>\<open>sendto\<close> in
  that iteration and stays pending.
\<close>

lemma retained_entry_waits_for_queue:
  assumes "pending l" and "sending l = []" and "\<not> POLLHUP_or_POLLERR ev"
  shows "attempted (snd (iteration clk ev sendto (poll_interest l))) = attempted l
       \<and> pending (snd (iteration clk ev sendto (poll_interest l)))
       \<and> item (snd (iteration clk ev sendto (poll_interest l))) = item l"
  using assms by (simp add: iteration_def poll_interest_def Let_def Now_def after_write_keeps)


section \<open>Tasks at Stop\<close>



lemma exit_drain_empty: "tasks l = [] \<Longrightarrow> exit_drain clk l = l"
  by (subst exit_drain.simps) simp

lemma exit_drain_step:
  "tasks l = task # q \<Longrightarrow>
   exit_drain clk l =
     exit_drain clk
       (l\<lparr>tasks := q, cached_now := clk (clock_reads l), clock_reads := Suc (clock_reads l),
          effects := effects l @ [Called (func task) (clk (clock_reads l)), SetValue (promise task)]\<rparr>)"
  by (subst exit_drain.simps) (simp add: Let_def Now_def)

lemma exit_drain_tasks: "tasks (exit_drain clk l) = []"
proof (induction "tasks l" arbitrary: l)
  case Nil
  then show ?case by (simp add: exit_drain_empty)
next
  case (Cons task q)
  from Cons(2)[symmetric] have s: "tasks l = task # q" .
  show ?case by (simp add: exit_drain_step[OF s] Cons(1))
qed


lemma exit_drain_running: "running (exit_drain clk l) = running l"
proof (induction "tasks l" arbitrary: l)
  case Nil
  then show ?case by (simp add: exit_drain_empty)
next
  case (Cons task q)
  from Cons(2)[symmetric] have s: "tasks l = task # q" .
  show ?case by (simp add: exit_drain_step[OF s] Cons(1))
qed


lemma iteration_then_drain_tasks:
  "tasks (exit_drain clk (snd (iteration clk ev sendto l))) = []"
  by (rule exit_drain_tasks)






text \<open>
  When the loop is marked signalled and nothing is to be read on the signalling
  descriptor, the \<^verbatim>\<open>Signal\<close> of \<open>Stop\<close> writes nothing, and without a socket event the
  worker stays in \<^verbatim>\<open>poll\<close>: \<open>Stop\<close> does not return. A task queued before \<open>Start\<close>
  leaves the loop in that state, since \<open>Start\<close> makes a new descriptor and keeps the
  mark.
\<close>

lemma Stop_blocks_without_wakeup:
  assumes "running l" and "thread l = InPoll" and "signaled l" and "pipe_pending l = 0"
    and "\<not> POLLHUP_or_POLLERR ev" and "\<not> socket_POLLIN ev"
    and "\<not> (events_POLLOUT l \<and> socket_writable ev)"
  shows "Stop clk ev sendto l = None"
  using assms
  by (auto simp: Stop_def join_def Let_def Signal_def on_loop_thread_def poll_returns_def)


lemma Stop_after_lost_signal:
  "running loop_with_lost_signal \<and> thread loop_with_lost_signal = InPoll
   \<and> signaled loop_with_lost_signal \<and> pipe_pending loop_with_lost_signal = 0
   \<and> tasks loop_with_lost_signal = [\<lparr>promise = 2, func = 20\<rparr>]
   \<and> effects loop_with_lost_signal = [Called 10 5001, SetValue 1]
   \<and> Stop example_clock quiet_poll always_EAGAIN loop_with_lost_signal = None"
  by (simp add: loop_with_lost_signal_def worker_turn_def after_poll_def iteration_def after_write_def poll_interest_def
        poll_returns_def Run_exit_def join_def leave_loop_def Stop_def Async_def Let_def
        task_phase_eq exit_drain_empty example_loop_def example_clock_def quiet_poll_def
        started_loop_def Start_def Now_def Signal_def on_loop_thread_def)

end
